theory Spec2Isabelle
  imports Main "HOL-Library.AList"
begin

section \<open>Python values and exceptions\<close>

text \<open>
  monpy is dynamically typed: a container may hold integers, closures, records and other
  containers side by side, nested to any depth. The embedding therefore works over one
  universe of Python values.

  \<^item> \<open>Int_v\<close>: a Python int.
  \<^item> \<open>Fun g\<close>: a Python function object, named \<open>g\<close>. Its body is given by an
    environment \<open>env g args\<close>, which receives the positional arguments of a call.
  \<^item> \<open>Clo f n xs\<close>: the closure \<^verbatim>\<open>lambda x_: _curry_call(f, x_, n, xs)\<close> built by
    \<^verbatim>\<open>curry\<close> and \<^verbatim>\<open>_curry_call\<close>, with its captured variables.
  \<^item> \<open>Do st\<close>: an instance of \<^verbatim>\<open>Do\<close>; \<open>st\<close> is its ordered \<^verbatim>\<open>state\<close> dictionary.
  \<^item> \<open>Box\<close>, \<open>Maybe\<close>, \<open>Many\<close>: instances of the three eager containers, holding
    \<^verbatim>\<open>obj\<close>, \<^verbatim>\<open>val\<close> (the tuple \<^verbatim>\<open>()\<close> or \<^verbatim>\<open>(x,)\<close>) and \<^verbatim>\<open>tup\<close>.

  The containers \<^verbatim>\<open>Func\<close> and \<^verbatim>\<open>Async\<close> hold Python callables and threads and are not
  part of this universe.
\<close>

datatype 'f val =
    Int_v int
  | Fun 'f
  | Clo "'f val" int "'f val list"
  | Do "(string \<times> 'f val) list"
  | Box "'f val"
  | Maybe "'f val option"
  | Many "'f val list"

text \<open>
  Exceptions are values. \<open>EmptyMmap\<close>, \<open>EmptyLift\<close> and \<open>ArityMismatch expected given\<close>
  are the three \<^verbatim>\<open>raise Exception(...)\<close> statements of monpy.py, told apart by their
  messages; the others are raised by the interpreter. \<open>RecursionError\<close> is what Python
  raises when the recursion of \<^verbatim>\<open>loop\<close> gets deeper than the interpreter allows; the
  allowed depth is a parameter of \<open>MonadCls_loop\<close>. \<open>Unmodelled\<close> marks the few
  outcomes that leave the universe of values above (a \<^verbatim>\<open>Do\<close> record used as a container
  because one of its fields is named like a container method).
\<close>

datatype error =
    EmptyMmap
  | EmptyLift
  | ArityMismatch int int
  | TypeError
  | AttributeError
  | KeyError
  | IndexError
  | OverflowError
  | RecursionError
  | Unmodelled

type_synonym 'f result = "error + 'f val"

type_synonym 'f env = "'f \<Rightarrow> 'f val list \<Rightarrow> 'f result"

text \<open>A Python lambda passed as an argument: it returns a value or raises.\<close>

type_synonym 'f lam = "'f val \<Rightarrow> 'f result"

text \<open>
  \<^verbatim>\<open>map(f, xs)\<close>, consumed from left to right: the first exception ends the iteration.
\<close>

fun map_e :: "('a \<Rightarrow> error + 'b) \<Rightarrow> 'a list \<Rightarrow> error + 'b list" where
  "map_e f [] = Inr []"
| "map_e f (x # xs) =
     (case f x of
        Inl e \<Rightarrow> Inl e
      | Inr y \<Rightarrow> (case map_e f xs of Inl e \<Rightarrow> Inl e | Inr ys \<Rightarrow> Inr (y # ys)))"

section \<open>The currying engine\<close>

text \<open>
  \<^verbatim>\<open>
  def _curry_call(f, x, n, xs=()):
      if n == 1:
          return f(x, *xs)
      else:
          return lambda x_: _curry_call(f, x_, n - 1, (*xs, x))
  def curry(n): return lambda f: lambda x: _curry_call(f, x, n)
  \<close>
  \<open>call env f args\<close> is the Python call \<^verbatim>\<open>f(*args)\<close>. A function object runs its
  body; a closure of \<^verbatim>\<open>_curry_call\<close> takes exactly one argument and runs
  \<^verbatim>\<open>_curry_call\<close>; no other value of the universe is callable.
\<close>

fun call :: "'f env \<Rightarrow> 'f val \<Rightarrow> 'f val list \<Rightarrow> 'f result"
  and curry_call :: "'f env \<Rightarrow> 'f val \<Rightarrow> 'f val \<Rightarrow> int \<Rightarrow> 'f val list \<Rightarrow> 'f result" where
  "call env (Fun g) args = env g args"
| "call env (Clo f n xs) args =
     (case args of [x] \<Rightarrow> curry_call env f x n xs | _ \<Rightarrow> Inl TypeError)"
| "call env (Int_v i) args = Inl TypeError"
| "call env (Do st) args = Inl TypeError"
| "call env (Box a) args = Inl TypeError"
| "call env (Maybe a) args = Inl TypeError"
| "call env (Many as) args = Inl TypeError"
| "curry_call env f x n xs =
     (if n = 1 then call env f (x # xs) else Inr (Clo f (n - 1) (xs @ [x])))"

definition curry :: "int \<Rightarrow> 'f val \<Rightarrow> 'f val" where
  "curry n f = Clo f n []"

text \<open>
  \<^verbatim>\<open>
  def _un_curry_call(f, xs, n):
      if len(xs) != n: raise Exception(f"function takes {n} positional arguments but {len(xs)} were given")
      y = f
      for x in xs:
          y = f(x)
      return y
  def un_curry(n): return lambda f: lambda *xs: _un_curry_call(f, xs, n)
  \<close>
  \<open>un_curry_loop\<close> is the \<^verbatim>\<open>for\<close> loop; its third argument is the variable \<^verbatim>\<open>y\<close>.
\<close>

fun un_curry_loop :: "'f env \<Rightarrow> 'f val \<Rightarrow> 'f val \<Rightarrow> 'f val list \<Rightarrow> 'f result" where
  "un_curry_loop env f y [] = Inr y"
| "un_curry_loop env f y (x # xs) =
     (case call env f [x] of Inl e \<Rightarrow> Inl e | Inr y' \<Rightarrow> un_curry_loop env f y' xs)"

definition un_curry_call :: "'f env \<Rightarrow> 'f val \<Rightarrow> 'f val list \<Rightarrow> int \<Rightarrow> 'f result" where
  "un_curry_call env f xs n =
     (if int (length xs) \<noteq> n then Inl (ArityMismatch n (int (length xs)))
      else un_curry_loop env f f xs)"

definition un_curry :: "'f env \<Rightarrow> int \<Rightarrow> 'f val \<Rightarrow> 'f val list \<Rightarrow> 'f result" where
  "un_curry env n f xs = un_curry_call env f xs n"

section \<open>The record of a do block\<close>

text \<open>
  \<^verbatim>\<open>
  class Do(object):
      def __init__(self, **state):
          self.state = state
      def __getattribute__(self, name):
          if name == "do":
              return object.__getattribute__(self, "state")
          elif name in {'__init__', '__getattribute__'}:
              return object.__getattribute__(self, name)
          else:
              return object.__getattribute__(self, "state")[name]
  \<close>
  The state is a Python dictionary: keys are unique and keep their insertion order, so it
  is an association list; \<open>map_of\<close> reads it and \<open>AList.update\<close> is the assignment
  \<^verbatim>\<open>{**state, name: x}\<close>, which replaces the value of a key that is present, in place,
  and appends a key that is not.
\<close>

datatype 'f attr =
    State "(string \<times> 'f val) list"
  | Bound_method string
  | Field "'f val"

definition Do_getattribute :: "(string \<times> 'f val) list \<Rightarrow> string \<Rightarrow> error + 'f attr" where
  "Do_getattribute state name =
     (if name = ''do'' then Inr (State state)
      else if name \<in> {''__init__'', ''__getattribute__''} then Inr (Bound_method name)
      else (case map_of state name of None \<Rightarrow> Inl KeyError | Some v \<Rightarrow> Inr (Field v)))"

text \<open>
  \<open>Do_init state\<close> is the construction \<^verbatim>\<open>Do(**state)\<close>. The key \<^verbatim>\<open>self\<close> collides with
  the first parameter of \<^verbatim>\<open>__init__\<close>, which Python refuses with a \<^verbatim>\<open>TypeError\<close>; so the
  state of a record never has this key.
\<close>

definition Do_init :: "(string \<times> 'f val) list \<Rightarrow> 'f result" where
  "Do_init state = (if ''self'' \<in> fst ` set state then Inl TypeError else Inr (Do state))"

text \<open>
  \<open>getattr_field s name\<close> is the expression \<^verbatim>\<open>s.name\<close> for a name such as \<^verbatim>\<open>x\<close> that
  no class of the module defines: only a record can have it.
\<close>

fun getattr_field :: "'f val \<Rightarrow> string \<Rightarrow> 'f result" where
  "getattr_field (Do st) name =
     (case Do_getattribute st name of
        Inl e \<Rightarrow> Inl e
      | Inr (Field v) \<Rightarrow> Inr v
      | Inr _ \<Rightarrow> Inl Unmodelled)"
| "getattr_field _ name = Inl AttributeError"

text \<open>
  \<open>do_state s\<close> is the dictionary that \<^verbatim>\<open>{**s.do, name: x}\<close> unpacks. On a container
  \<^verbatim>\<open>s.do\<close> is the class method \<^verbatim>\<open>do\<close>, which is not a mapping.
\<close>

fun do_state :: "'f val \<Rightarrow> error + (string \<times> 'f val) list" where
  "do_state (Do st) =
     (case Do_getattribute st ''do'' of
        Inl e \<Rightarrow> Inl e
      | Inr (State d) \<Rightarrow> Inr d
      | Inr _ \<Rightarrow> Inl TypeError)"
| "do_state (Box a) = Inl TypeError"
| "do_state (Maybe a) = Inl TypeError"
| "do_state (Many as) = Inl TypeError"
| "do_state _ = Inl AttributeError"

text \<open>
  A method call \<^verbatim>\<open>s.m(...)\<close> on a record looks \<^verbatim>\<open>m\<close> up among its fields: \<^verbatim>\<open>KeyError\<close>
  when there is no such field. Calling a field is outside the model.
\<close>

definition Do_method :: "(string \<times> 'f val) list \<Rightarrow> string \<Rightarrow> error + 'a" where
  "Do_method st name =
     (case Do_getattribute st name of Inl e \<Rightarrow> Inl e | Inr _ \<Rightarrow> Inl Unmodelled)"

section \<open>The containers\<close>

subsection \<open>Box\<close>

text \<open>
  \<^verbatim>\<open>
  def map(self, f): return Box(f(self.obj))
  def wrap(cls, x): return Box(x)
  def apply(self, other): return Box(self.obj(other.obj))
  def bind(self, f): return f(self.obj)
  \<close>
  The first argument of each method below is the field of \<^verbatim>\<open>self\<close>.
\<close>

fun attr_obj :: "'f val \<Rightarrow> 'f result" where
  "attr_obj (Box a) = Inr a"
| "attr_obj (Do st) =
     (case Do_getattribute st ''obj'' of
        Inl e \<Rightarrow> Inl e
      | Inr (Field v) \<Rightarrow> Inr v
      | Inr _ \<Rightarrow> Inl Unmodelled)"
| "attr_obj _ = Inl AttributeError"

definition Box_map :: "'f lam \<Rightarrow> 'f val \<Rightarrow> 'f result" where
  "Box_map f obj = (case f obj of Inl e \<Rightarrow> Inl e | Inr y \<Rightarrow> Inr (Box y))"

definition Box_wrap :: "'f val \<Rightarrow> 'f val" where
  "Box_wrap x = Box x"

definition Box_apply :: "'f env \<Rightarrow> 'f val \<Rightarrow> 'f val \<Rightarrow> 'f result" where
  "Box_apply env obj other =
     (case attr_obj other of
        Inl e \<Rightarrow> Inl e
      | Inr x \<Rightarrow> (case call env obj [x] of Inl e \<Rightarrow> Inl e | Inr y \<Rightarrow> Inr (Box y)))"

definition Box_bind :: "'f lam \<Rightarrow> 'f val \<Rightarrow> 'f result" where
  "Box_bind f obj = f obj"

subsection \<open>Maybe\<close>

text \<open>
  \<^verbatim>\<open>
  def map(self, f):
      match self.val:
          case (): return Maybe()
          case (x,): return Maybe(f(x))
  def wrap(cls, x): return Maybe(x)
  def apply(self, other):
      match self.val:
          case (): return Maybe()
          case (f,):
              match other.val:
                  case (): return Maybe()
                  case (x,): return Maybe(f(x))
  def bind(self, f):
      match self.val:
          case (): return Maybe()
          case (x,): return f(x)
  \<close>
  A record field named \<^verbatim>\<open>val\<close> never holds a tuple, so neither pattern of the inner
  \<^verbatim>\<open>match\<close> applies to it and \<^verbatim>\<open>apply\<close> returns \<^verbatim>\<open>None\<close>, which is outside the model.
\<close>

fun attr_val :: "'f val \<Rightarrow> error + 'f val option" where
  "attr_val (Maybe v) = Inr v"
| "attr_val (Do st) = Do_method st ''val''"
| "attr_val _ = Inl AttributeError"

definition Maybe_map :: "'f lam \<Rightarrow> 'f val option \<Rightarrow> 'f result" where
  "Maybe_map f val =
     (case val of
        None \<Rightarrow> Inr (Maybe None)
      | Some x \<Rightarrow> (case f x of Inl e \<Rightarrow> Inl e | Inr y \<Rightarrow> Inr (Maybe (Some y))))"

definition Maybe_wrap :: "'f val \<Rightarrow> 'f val" where
  "Maybe_wrap x = Maybe (Some x)"

definition Maybe_apply :: "'f env \<Rightarrow> 'f val option \<Rightarrow> 'f val \<Rightarrow> 'f result" where
  "Maybe_apply env val other =
     (case val of
        None \<Rightarrow> Inr (Maybe None)
      | Some f \<Rightarrow>
          (case attr_val other of
             Inl e \<Rightarrow> Inl e
           | Inr None \<Rightarrow> Inr (Maybe None)
           | Inr (Some x) \<Rightarrow>
               (case call env f [x] of Inl e \<Rightarrow> Inl e | Inr y \<Rightarrow> Inr (Maybe (Some y)))))"

definition Maybe_bind :: "'f lam \<Rightarrow> 'f val option \<Rightarrow> 'f result" where
  "Maybe_bind f val = (case val of None \<Rightarrow> Inr (Maybe None) | Some x \<Rightarrow> f x)"

subsection \<open>Many\<close>

text \<open>
  \<^verbatim>\<open>
  def fold(self, initial, fold):
      y = initial
      for x in self.tup:
          y = fold(y, x)
      return y
  def map(self, f): return Many(*map(f, self.tup))
  def wrap(cls, x): return Many(x)
  def apply(self, other): return Many(*(f(x) for f in self.tup for x in other.tup))
  def bind(self, f): return Many(*(x for mx in map(f, self.tup) for x in mx.tup))
  \<close>
  \<open>attr_tup v\<close> is the iteration \<^verbatim>\<open>for x in v.tup\<close>. A record with a field \<^verbatim>\<open>tup\<close>
  holding a \<^verbatim>\<open>Many\<close> can be iterated too (\<^verbatim>\<open>Many.__iter__\<close>); no other value of the
  universe is iterable.
\<close>

fun iterate :: "'f val \<Rightarrow> error + 'f val list" where
  "iterate (Many xs) = Inr xs"
| "iterate _ = Inl TypeError"

fun attr_tup :: "'f val \<Rightarrow> error + 'f val list" where
  "attr_tup (Many xs) = Inr xs"
| "attr_tup (Do st) =
     (case Do_getattribute st ''tup'' of
        Inl e \<Rightarrow> Inl e
      | Inr (Field v) \<Rightarrow> iterate v
      | Inr _ \<Rightarrow> Inl Unmodelled)"
| "attr_tup _ = Inl AttributeError"

text \<open>The loop of \<^verbatim>\<open>fold\<close>: the second argument is the variable \<^verbatim>\<open>y\<close>, the third
  the parameter \<^verbatim>\<open>fold\<close>.\<close>

fun Many_fold :: "'f val list \<Rightarrow> 'f val \<Rightarrow> ('f val \<Rightarrow> 'f val \<Rightarrow> 'f result) \<Rightarrow> 'f result" where
  "Many_fold [] y fn = Inr y"
| "Many_fold (x # tup) y fn =
     (case fn y x of Inl e \<Rightarrow> Inl e | Inr y' \<Rightarrow> Many_fold tup y' fn)"

definition Many_map :: "'f lam \<Rightarrow> 'f val list \<Rightarrow> 'f result" where
  "Many_map f tup = (case map_e f tup of Inl e \<Rightarrow> Inl e | Inr ys \<Rightarrow> Inr (Many ys))"

definition Many_wrap :: "'f val \<Rightarrow> 'f val" where
  "Many_wrap x = Many [x]"

text \<open>
  The generator of \<^verbatim>\<open>apply\<close>: the outer \<^verbatim>\<open>for f in self.tup\<close> is the recursion of
  \<open>Many_apply_gen\<close>; for each \<^verbatim>\<open>f\<close> the inner \<^verbatim>\<open>for x in other.tup\<close> reads \<^verbatim>\<open>other.tup\<close>
  again and calls \<^verbatim>\<open>f(x)\<close> on its elements in order.
\<close>

fun Many_apply_gen :: "'f env \<Rightarrow> 'f val list \<Rightarrow> 'f val \<Rightarrow> error + 'f val list" where
  "Many_apply_gen env [] other = Inr []"
| "Many_apply_gen env (f # fs) other =
     (case attr_tup other of
        Inl e \<Rightarrow> Inl e
      | Inr xs \<Rightarrow>
          (case map_e (\<lambda>x. call env f [x]) xs of
             Inl e \<Rightarrow> Inl e
           | Inr ys \<Rightarrow>
               (case Many_apply_gen env fs other of
                  Inl e \<Rightarrow> Inl e
                | Inr zs \<Rightarrow> Inr (ys @ zs))))"

definition Many_apply :: "'f env \<Rightarrow> 'f val list \<Rightarrow> 'f val \<Rightarrow> 'f result" where
  "Many_apply env tup other =
     (case Many_apply_gen env tup other of Inl e \<Rightarrow> Inl e | Inr ys \<Rightarrow> Inr (Many ys))"

text \<open>
  The generator of \<^verbatim>\<open>bind\<close>: \<^verbatim>\<open>map(f, self.tup)\<close> is lazy, so \<^verbatim>\<open>f\<close> is called on an
  element, the \<^verbatim>\<open>tup\<close> of its result is read and yielded, and only then is \<^verbatim>\<open>f\<close> called
  on the next element.
\<close>

fun Many_bind_gen :: "'f lam \<Rightarrow> 'f val list \<Rightarrow> error + 'f val list" where
  "Many_bind_gen f [] = Inr []"
| "Many_bind_gen f (x # xs) =
     (case f x of
        Inl e \<Rightarrow> Inl e
      | Inr mx \<Rightarrow>
          (case attr_tup mx of
             Inl e \<Rightarrow> Inl e
           | Inr ys \<Rightarrow>
               (case Many_bind_gen f xs of
                  Inl e \<Rightarrow> Inl e
                | Inr zs \<Rightarrow> Inr (ys @ zs))))"

definition Many_bind :: "'f lam \<Rightarrow> 'f val list \<Rightarrow> 'f result" where
  "Many_bind f tup =
     (case Many_bind_gen f tup of Inl e \<Rightarrow> Inl e | Inr ys \<Rightarrow> Inr (Many ys))"

subsection \<open>Method dispatch\<close>

text \<open>
  \<^verbatim>\<open>v.map(f)\<close>, \<^verbatim>\<open>v.apply(other)\<close> and \<^verbatim>\<open>v.bind(f)\<close> run the method of the class of
  \<^verbatim>\<open>v\<close>. Integers, functions and closures have no such attribute.
\<close>

fun map_v :: "'f lam \<Rightarrow> 'f val \<Rightarrow> 'f result" where
  "map_v f (Box obj) = Box_map f obj"
| "map_v f (Maybe val) = Maybe_map f val"
| "map_v f (Many tup) = Many_map f tup"
| "map_v f (Do st) = Do_method st ''map''"
| "map_v f _ = Inl AttributeError"

fun apply_v :: "'f env \<Rightarrow> 'f val \<Rightarrow> 'f val \<Rightarrow> 'f result" where
  "apply_v env (Box obj) other = Box_apply env obj other"
| "apply_v env (Maybe val) other = Maybe_apply env val other"
| "apply_v env (Many tup) other = Many_apply env tup other"
| "apply_v env (Do st) other = Do_method st ''apply''"
| "apply_v env _ other = Inl AttributeError"

fun bind_v :: "'f lam \<Rightarrow> 'f val \<Rightarrow> 'f result" where
  "bind_v f (Box obj) = Box_bind f obj"
| "bind_v f (Maybe val) = Maybe_bind f val"
| "bind_v f (Many tup) = Many_bind f tup"
| "bind_v f (Do st) = Do_method st ''bind''"
| "bind_v f _ = Inl AttributeError"

text \<open>The classes, as the values that \<^verbatim>\<open>cls\<close> and \<^verbatim>\<open>mon\<close> range over.\<close>

datatype cls = BoxCls | MaybeCls | ManyCls

fun wrap :: "cls \<Rightarrow> 'f val \<Rightarrow> 'f val" where
  "wrap BoxCls x = Box_wrap x"
| "wrap MaybeCls x = Maybe_wrap x"
| "wrap ManyCls x = Many_wrap x"

text \<open>\<^verbatim>\<open>issubclass(type(v), mon)\<close>: none of the three classes derives from another.\<close>

fun isinstance :: "'f val \<Rightarrow> cls \<Rightarrow> bool" where
  "isinstance (Box a) mon = (mon = BoxCls)"
| "isinstance (Maybe a) mon = (mon = MaybeCls)"
| "isinstance (Many as) mon = (mon = ManyCls)"
| "isinstance _ mon = False"

section \<open>The functor multiplex\<close>

text \<open>
  \<^verbatim>\<open>
  def mmap(cls, *functor_levels: int):
      flevs_len = len(functor_levels)
      if flevs_len <= 0: raise Exception("Can only multi-map a strictly positive number of positional arguments")
      def inner(f, args):
          if len(args) != flevs_len: raise Exception(f"function takes {flevs_len} positional arguments but {len(args)} were given")
          layer = 0
          y = curry(flevs_len)(f)
          for i in range(flevs_len):
              update = lambda y_, x: y_(x)
              for _ in [None] * functor_levels[i]:
                  u = update
                  update = lambda y_, x, u=u: x.map(lambda x_, u=u: u(y_, x_))
              for _ in [None] * layer:
                  u = update
                  update = lambda y_, x, u=u: y_.map(lambda y__, u=u: u(y__, x))
              layer += functor_levels[i]
              y = update(y, args[i])
          return y
      return lambda f: lambda *args: inner(f, args)
  \<close>
  The depths are Python values: the annotation \<^verbatim>\<open>int\<close> is not enforced. \<open>times_None l\<close>
  is the length of the list \<^verbatim>\<open>[None] * l\<close>. A value that is not an int is a
  \<^verbatim>\<open>TypeError\<close>. An int must fit the index type of the interpreter, which ranges from
  \<^verbatim>\<open>-sys.maxsize - 1\<close> to \<^verbatim>\<open>sys.maxsize\<close>, or else it is an \<^verbatim>\<open>OverflowError\<close>; an int
  below zero that fits gives the empty list. \<open>sys_maxsize\<close> is the value of a 64-bit
  CPython. A list that fits the index type and not the memory is a \<^verbatim>\<open>MemoryError\<close>,
  which depends on the machine: the model is of an interpreter with memory enough.
\<close>

type_synonym 'f update = "'f val \<Rightarrow> 'f val \<Rightarrow> 'f result"

definition sys_maxsize :: int where
  "sys_maxsize = 2 ^ 63 - 1"

fun times_None :: "'f val \<Rightarrow> error + nat" where
  "times_None (Int_v n) =
     (if n < - sys_maxsize - 1 \<or> sys_maxsize < n then Inl OverflowError else Inr (nat n))"
| "times_None _ = Inl TypeError"

text \<open>The three lambdas bound to \<^verbatim>\<open>update\<close>.\<close>

definition update_call :: "'f env \<Rightarrow> 'f update" where
  "update_call env = (\<lambda>y' x. call env y' [x])"

definition update_over_x :: "'f update \<Rightarrow> 'f update" where
  "update_over_x u = (\<lambda>y' x. map_v (\<lambda>x'. u y' x') x)"

definition update_over_y :: "'f update \<Rightarrow> 'f update" where
  "update_over_y u = (\<lambda>y' x. map_v (\<lambda>y''. u y'' x) y')"

text \<open>
  The body of the loop over \<^verbatim>\<open>i\<close>, for the depth \<open>l\<close> and the argument \<open>x\<close> at index
  \<^verbatim>\<open>i\<close>: it returns the new \<^verbatim>\<open>layer\<close> and the new \<^verbatim>\<open>y\<close>. The list \<^verbatim>\<open>[None] * l\<close> is
  built first and \<^verbatim>\<open>[None] * layer\<close> second; adding to \<^verbatim>\<open>layer\<close>, an int without bounds,
  is reached only when \<open>l\<close> is an int.
\<close>

definition mmap_step :: "'f env \<Rightarrow> 'f val \<Rightarrow> 'f val \<Rightarrow> int \<Rightarrow> 'f val \<Rightarrow> error + (int \<times> 'f val)" where
  "mmap_step env l x layer y =
     (case times_None l of
        Inl e \<Rightarrow> Inl e
      | Inr n \<Rightarrow>
          (case times_None (Int_v layer :: 'f val) of
             Inl e \<Rightarrow> Inl e
           | Inr m \<Rightarrow>
               (let update = (update_over_y ^^ m) ((update_over_x ^^ n) (update_call env));
                    layer' = layer + (case l of Int_v d \<Rightarrow> d | _ \<Rightarrow> 0)
                in case update y x of Inl e \<Rightarrow> Inl e | Inr y' \<Rightarrow> Inr (layer', y'))))"

text \<open>
  The loop \<^verbatim>\<open>for i in range(flevs_len)\<close> reads \<^verbatim>\<open>functor_levels[i]\<close> and \<^verbatim>\<open>args[i]\<close>:
  the recursion walks both sequences together. \<^verbatim>\<open>inner\<close> has checked that they are of
  one length; a missing argument would be an \<^verbatim>\<open>IndexError\<close>.
\<close>

fun mmap_loop :: "'f env \<Rightarrow> 'f val list \<Rightarrow> 'f val list \<Rightarrow> int \<Rightarrow> 'f val \<Rightarrow> 'f result" where
  "mmap_loop env [] args layer y = Inr y"
| "mmap_loop env (l # ls) [] layer y = Inl IndexError"
| "mmap_loop env (l # ls) (x # args) layer y =
     (case mmap_step env l x layer y of
        Inl e \<Rightarrow> Inl e
      | Inr (layer', y') \<Rightarrow> mmap_loop env ls args layer' y')"

definition mmap_inner :: "'f env \<Rightarrow> 'f val list \<Rightarrow> 'f val \<Rightarrow> 'f val list \<Rightarrow> 'f result" where
  "mmap_inner env functor_levels f args =
     (let flevs_len = int (length functor_levels)
      in if int (length args) \<noteq> flevs_len
         then Inl (ArityMismatch flevs_len (int (length args)))
         else mmap_loop env functor_levels args 0 (curry flevs_len f))"

text \<open>
  \<^verbatim>\<open>mmap(*functor_levels)\<close> raises or returns a function; \<^verbatim>\<open>mmap(...)(f)(*args)\<close> is
  then the call of \<^verbatim>\<open>inner\<close>.
\<close>

definition FunctorCls_mmap ::
  "'f env \<Rightarrow> 'f val list \<Rightarrow> error + ('f val \<Rightarrow> 'f val list \<Rightarrow> 'f result)" where
  "FunctorCls_mmap env functor_levels =
     (if int (length functor_levels) \<le> 0 then Inl EmptyMmap
      else Inr (\<lambda>f args. mmap_inner env functor_levels f args))"

section \<open>The applicative lifter\<close>

text \<open>
  \<^verbatim>\<open>
  def lift(cls, *applicative_flags: bool):
      aflags_len = len(applicative_flags)
      if aflags_len <= 0: raise Exception("Can only lift a strictly positive number of positional arguments")
      def inner(f, args):
          if len(args) != aflags_len: raise Exception(f"function takes {aflags_len} positional arguments but {len(args)} were given")
          y = cls.wrap(curry(aflags_len)(f))
          for i in range(aflags_len):
              if applicative_flags[i]:
                  y = y.apply(args[i])
              else:
                  y = y.map(lambda f_: f_(args[i]))
          return y
      return lambda f: lambda *args: inner(f, args)
  \<close>
  The containers of this model run \<^verbatim>\<open>map\<close> at once, so the lambda reads \<^verbatim>\<open>args[i]\<close> at
  the current \<^verbatim>\<open>i\<close>.
\<close>

fun lift_loop :: "'f env \<Rightarrow> bool list \<Rightarrow> 'f val list \<Rightarrow> 'f val \<Rightarrow> 'f result" where
  "lift_loop env [] args y = Inr y"
| "lift_loop env (flag # flags) [] y = Inl IndexError"
| "lift_loop env (flag # flags) (x # args) y =
     (case (if flag then apply_v env y x else map_v (\<lambda>f'. call env f' [x]) y) of
        Inl e \<Rightarrow> Inl e
      | Inr y' \<Rightarrow> lift_loop env flags args y')"

definition lift_inner :: "'f env \<Rightarrow> cls \<Rightarrow> bool list \<Rightarrow> 'f val \<Rightarrow> 'f val list \<Rightarrow> 'f result" where
  "lift_inner env cls applicative_flags f args =
     (let aflags_len = int (length applicative_flags)
      in if int (length args) \<noteq> aflags_len
         then Inl (ArityMismatch aflags_len (int (length args)))
         else lift_loop env applicative_flags args (wrap cls (curry aflags_len f)))"

definition ApplicativeCls_lift ::
  "'f env \<Rightarrow> cls \<Rightarrow> bool list \<Rightarrow> error + ('f val \<Rightarrow> 'f val list \<Rightarrow> 'f result)" where
  "ApplicativeCls_lift env cls applicative_flags =
     (if int (length applicative_flags) \<le> 0 then Inl EmptyLift
      else Inr (\<lambda>f args. lift_inner env cls applicative_flags f args))"

section \<open>The monadic sequencer\<close>

text \<open>
  \<^verbatim>\<open>
  def do(cls, do = None, **kwargs):
      if do == None: do = cls.wrap(Do())
      state = do
      for name, line in kwargs.items():
          state = state.bind(lambda s, line=line, name=name:
              line(s).map(lambda x, name=name: Do(**{**s.do, name: x})))
      return state
  \<close>
  The keyword arguments are a dictionary: the names are distinct and come in the order
  of the call, and none of them is \<^verbatim>\<open>cls\<close> or \<^verbatim>\<open>do\<close>, which are the parameters.
  \<open>do_line name line\<close> is the lambda given to \<^verbatim>\<open>bind\<close>.
\<close>

type_synonym 'f kwargs = "(string \<times> 'f lam) list"

definition do_line :: "string \<Rightarrow> 'f lam \<Rightarrow> 'f lam" where
  "do_line name line =
     (\<lambda>s. case line s of
            Inl e \<Rightarrow> Inl e
          | Inr m \<Rightarrow>
              map_v (\<lambda>x. case do_state s of
                           Inl e \<Rightarrow> Inl e
                         | Inr st \<Rightarrow> Do_init (AList.update name x st)) m)"

fun do_lines :: "'f val \<Rightarrow> 'f kwargs \<Rightarrow> 'f result" where
  "do_lines state [] = Inr state"
| "do_lines state ((name, line) # kwargs) =
     (case bind_v (do_line name line) state of
        Inl e \<Rightarrow> Inl e
      | Inr state' \<Rightarrow> do_lines state' kwargs)"

definition MonadCls_do :: "cls \<Rightarrow> 'f val option \<Rightarrow> 'f kwargs \<Rightarrow> 'f result" where
  "MonadCls_do cls do kwargs =
     do_lines (case do of None \<Rightarrow> wrap cls (Do []) | Some d \<Rightarrow> d) kwargs"

text \<open>
  \<^verbatim>\<open>
  def loop(cls, predicate, do = None, **kwargs):
      if do == None: do = cls.wrap(Do())
      def while_do(s):
          if predicate(s):
              return cls.do(do=cls.wrap(s), **kwargs).bind(while_do)
          else:
              return cls.wrap(s)
      return do.bind(while_do)
  \<close>
  \<^verbatim>\<open>while_do\<close> calls itself through \<^verbatim>\<open>bind\<close>, one level deeper for every pass of the
  loop, and nothing bounds the number of passes. The first argument of \<open>while_do\<close> is the
  number of nested calls the interpreter still allows: at zero the call raises
  \<^verbatim>\<open>RecursionError\<close>.
\<close>

fun while_do :: "nat \<Rightarrow> cls \<Rightarrow> ('f val \<Rightarrow> error + bool) \<Rightarrow> 'f kwargs \<Rightarrow> 'f lam" where
  "while_do 0 cls predicate kwargs s = Inl RecursionError"
| "while_do (Suc depth) cls predicate kwargs s =
     (case predicate s of
        Inl e \<Rightarrow> Inl e
      | Inr True \<Rightarrow>
          (case MonadCls_do cls (Some (wrap cls s)) kwargs of
             Inl e \<Rightarrow> Inl e
           | Inr m \<Rightarrow> bind_v (while_do depth cls predicate kwargs) m)
      | Inr False \<Rightarrow> Inr (wrap cls s))"

definition MonadCls_loop ::
  "nat \<Rightarrow> cls \<Rightarrow> ('f val \<Rightarrow> error + bool) \<Rightarrow> 'f val option \<Rightarrow> 'f kwargs \<Rightarrow> 'f result" where
  "MonadCls_loop depth cls predicate do kwargs =
     bind_v (while_do depth cls predicate kwargs)
       (case do of None \<Rightarrow> wrap cls (Do []) | Some d \<Rightarrow> d)"

section \<open>Structural flatten\<close>

text \<open>
  \<^verbatim>\<open>
  def flatten(mon, expr):
      return mon.loop(
          lambda s: issubclass(type(s.x), mon),
          do = mon.do(x = lambda s: expr),
          x = lambda s: s.x
      ).map(lambda s: s.x)
  \<close>
  The first argument is the recursion depth given to \<^verbatim>\<open>loop\<close>.
\<close>

definition flatten :: "nat \<Rightarrow> cls \<Rightarrow> 'f val \<Rightarrow> 'f result" where
  "flatten depth mon expr =
     (case MonadCls_do mon None [(''x'', \<lambda>s. Inr expr)] of
        Inl e \<Rightarrow> Inl e
      | Inr d \<Rightarrow>
          (case MonadCls_loop depth mon
                  (\<lambda>s. case getattr_field s ''x'' of
                         Inl e \<Rightarrow> Inl e
                       | Inr v \<Rightarrow> Inr (isinstance v mon))
                  (Some d)
                  [(''x'', \<lambda>s. getattr_field s ''x'')] of
             Inl e \<Rightarrow> Inl e
           | Inr r \<Rightarrow> map_v (\<lambda>s. getattr_field s ''x'') r))"

section \<open>The demonstration program\<close>

text \<open>
  example.py defines
  \<^verbatim>\<open>
  def f(x, y): return x + y
  def g(x, y, z): return (x * z) + (y * z)
  \<close>
  The environment below holds \<^verbatim>\<open>f\<close> and two more functions used to test the argument
  order, \<^verbatim>\<open>lambda x, y: x - y\<close> and \<^verbatim>\<open>lambda x: -x\<close>. A call with another number of
  arguments, or with operands that are not ints, is a \<^verbatim>\<open>TypeError\<close>.
\<close>

datatype example_fn = Fn_f | Fn_minus | Fn_neg

fun example_env :: "example_fn env" where
  "example_env Fn_f [Int_v x, Int_v y] = Inr (Int_v (x + y))"
| "example_env Fn_minus [Int_v x, Int_v y] = Inr (Int_v (x - y))"
| "example_env Fn_neg [Int_v x] = Inr (Int_v (- x))"
| "example_env _ _ = Inl TypeError"

fun g :: "'f val \<Rightarrow> 'f val \<Rightarrow> 'f val \<Rightarrow> 'f result" where
  "g (Int_v x) (Int_v y) (Int_v z) = Inr (Int_v (x * z + y * z))"
| "g _ _ _ = Inl TypeError"

text \<open>
  \<^verbatim>\<open>
  monpy.Many.do(
      x = lambda s: monpy.Many(0, 2),
      y = lambda s: monpy.Many(0, 1),
      z = lambda s: monpy.Many.wrap(g(s.x, s.y, -1))
  )
  \<close>
\<close>

definition example_do :: "example_fn result" where
  "example_do =
     MonadCls_do ManyCls None
       [(''x'', \<lambda>s. Inr (Many [Int_v 0, Int_v 2])),
        (''y'', \<lambda>s. Inr (Many [Int_v 0, Int_v 1])),
        (''z'', \<lambda>s. case getattr_field s ''x'' of
                        Inl e \<Rightarrow> Inl e
                      | Inr x \<Rightarrow>
                          (case getattr_field s ''y'' of
                             Inl e \<Rightarrow> Inl e
                           | Inr y \<Rightarrow>
                               (case g x y (Int_v (- 1)) of
                                  Inl e \<Rightarrow> Inl e
                                | Inr r \<Rightarrow> Inr (wrap ManyCls r))))]"

section \<open>What flatten is to compute\<close>

text \<open>
  The reference for \<^verbatim>\<open>flatten(mon, expr)\<close>, following the specification. \<open>joined mon v\<close>
  are the values that remain when every layer of the class \<open>mon\<close> at the top of \<open>v\<close> is
  joined away: a container of the class gives the joined values of its elements, in
  order, and a value of another type is kept as it is, with whatever it holds.
  \<open>container mon xs\<close> is the single flat value of the class that holds them: a \<^verbatim>\<open>Box\<close> has
  exactly one, a \<^verbatim>\<open>Maybe\<close> at most one. \<open>nesting mon v\<close> counts the layers that are joined,
  which is the recursion depth \<^verbatim>\<open>loop\<close> needs.
\<close>

fun joined :: "cls \<Rightarrow> 'f val \<Rightarrow> 'f val list" where
  "joined mon (Box a) = (if mon = BoxCls then joined mon a else [Box a])"
| "joined mon (Maybe None) = (if mon = MaybeCls then [] else [Maybe None])"
| "joined mon (Maybe (Some a)) = (if mon = MaybeCls then joined mon a else [Maybe (Some a)])"
| "joined mon (Many xs) = (if mon = ManyCls then concat (map (joined mon) xs) else [Many xs])"
| "joined mon v = [v]"

fun nesting :: "cls \<Rightarrow> 'f val \<Rightarrow> nat" where
  "nesting mon (Box a) = (if mon = BoxCls then Suc (nesting mon a) else 0)"
| "nesting mon (Maybe None) = (if mon = MaybeCls then Suc 0 else 0)"
| "nesting mon (Maybe (Some a)) = (if mon = MaybeCls then Suc (nesting mon a) else 0)"
| "nesting mon (Many xs) =
     (if mon = ManyCls then Suc (foldr max (map (nesting mon) xs) 0) else 0)"
| "nesting mon v = 0"

fun container :: "cls \<Rightarrow> 'f val list \<Rightarrow> 'f val" where
  "container BoxCls xs = Box (hd xs)"
| "container MaybeCls xs = Maybe (case xs of [] \<Rightarrow> None | x # _ \<Rightarrow> Some x)"
| "container ManyCls xs = Many xs"

section \<open>What mmap is to compute\<close>

text \<open>
  The reference for \<^verbatim>\<open>mmap(L_1,...,L_k)(f)(x_1,...,x_k)\<close>, following the specification:
  \<open>broadcast F [(L_1, x_1), ..., (L_k, x_k)] []\<close> descends \<open>L_1\<close> levels into \<open>x_1\<close> by
  \<^verbatim>\<open>map\<close>, then \<open>L_2\<close> levels into \<open>x_2\<close>, and so on, so that the layers of \<open>x_1\<close> are the
  outermost; an argument of depth 0 is taken as it is, with no \<^verbatim>\<open>map\<close> call; at the
  innermost level \<open>F\<close> receives the values reached, in the order of the arguments.
\<close>

fun broadcast ::
  "('f val list \<Rightarrow> 'f result) \<Rightarrow> (nat \<times> 'f val) list \<Rightarrow> 'f val list \<Rightarrow> 'f result" where
  "broadcast F [] as = F as"
| "broadcast F ((0, x) # rest) as = broadcast F rest (as @ [x])"
| "broadcast F ((Suc L, x) # rest) as = map_v (\<lambda>x'. broadcast F ((L, x') # rest) as) x"

subsection \<open>Notions used in the proof\<close>

text \<open>
  \<open>and_then\<close> is sequencing with exceptions, \<open>deep_map n p\<close> is \<open>n\<close> nested \<^verbatim>\<open>map\<close> calls,
  and two results \<open>agree\<close> when they are the same value or are both exceptions: the code
  maps over the whole of \<^verbatim>\<open>x_1\<close> before it looks at \<^verbatim>\<open>x_2\<close>, so when several calls
  would raise, it need not raise the same exception as the reference. \<open>curried_broadcast\<close>
  is the broadcast of a curried chain \<open>c\<close>, one call per argument.
\<close>

definition and_then :: "error + 'a \<Rightarrow> ('a \<Rightarrow> error + 'b) \<Rightarrow> error + 'b" where
  "and_then r k = (case r of Inl e \<Rightarrow> Inl e | Inr v \<Rightarrow> k v)"

fun deep_map :: "nat \<Rightarrow> 'f lam \<Rightarrow> 'f lam" where
  "deep_map 0 p v = p v"
| "deep_map (Suc n) p v = map_v (deep_map n p) v"

definition agree :: "error + 'a \<Rightarrow> error + 'a \<Rightarrow> bool" where
  "agree r r' = (\<forall>v. (r = Inr v) = (r' = Inr v))"

fun curried_broadcast :: "'f env \<Rightarrow> (nat \<times> 'f val) list \<Rightarrow> 'f lam" where
  "curried_broadcast env [] = (\<lambda>c. Inr c)"
| "curried_broadcast env ((L, x) # rest) =
     (\<lambda>c. deep_map L (\<lambda>x'. and_then (call env c [x']) (curried_broadcast env rest)) x)"

section \<open>Iteration with exceptions\<close>

lemma map_e_total: "map_e (\<lambda>x. Inr (h x)) xs = Inr (map h xs)"
  by (induction xs) simp_all

lemma map_e_append:
  "map_e f (xs @ ys) =
     (case map_e f xs of
        Inl e \<Rightarrow> Inl e
      | Inr us \<Rightarrow> (case map_e f ys of Inl e \<Rightarrow> Inl e | Inr vs \<Rightarrow> Inr (us @ vs)))"
  by (induction xs) (simp_all split: sum.splits)

lemma map_e_map: "map_e f (map k xs) = map_e (\<lambda>x. f (k x)) xs"
  by (induction xs) (simp_all split: sum.splits)

section \<open>Many: fold, apply and bind\<close>

lemma Many_fold_foldl: "Many_fold tup a (\<lambda>y x. Inr (fn y x)) = Inr (foldl fn a tup)"
  by (induction tup arbitrary: a) simp_all

text \<open>
  Claim C10. \<^verbatim>\<open>Many(x_1,...,x_n).fold(a, fn)\<close> is the left fold
  \<^verbatim>\<open>fn(...fn(fn(a, x_1), x_2)..., x_n)\<close> over the elements in sequence order, for every
  function \<open>fn\<close> that returns; on the empty \<^verbatim>\<open>Many\<close> it returns the initial value, whatever
  the function is.
\<close>

theorem Many_fold_is_left_fold:
  "Many_fold tup a (\<lambda>y x. Inr (fn y x)) = Inr (foldl fn a tup)
   \<and> Many_fold [x1, x2, x3] a (\<lambda>y x. Inr (fn y x)) = Inr (fn (fn (fn a x1) x2) x3)
   \<and> Many_fold [] a fn' = Inr a"
  by (simp add: Many_fold_foldl)

lemma Many_apply_gen_product:
  "Many_apply_gen env fs (Many xs) = map_e (\<lambda>(f, x). call env f [x]) (List.product fs xs)"
  by (induction fs) (simp_all add: map_e_append map_e_map split: sum.splits)

lemma Many_apply_gen_total:
  "Many_apply_gen (\<lambda>g args. Inr (h g args)) (map Fun gs) (Many xs) =
     Inr (concat (map (\<lambda>g. map (\<lambda>x. h g [x]) xs) gs))"
  by (induction gs) (simp_all add: map_e_total)

text \<open>
  Claim C3. \<^verbatim>\<open>fs.apply(xs)\<close> calls the pairs of the cartesian product in the order of
  \<open>List.product fs xs\<close>: the functions vary slowest and the values fastest, and the first
  call that raises ends it. When every function returns, the result is the \<^verbatim>\<open>Many\<close> of
  the results in that order; in particular
  \<^verbatim>\<open>Many(f1,f2).apply(Many(1,2)) == Many(f1(1), f1(2), f2(1), f2(2))\<close>.
\<close>

theorem Many_apply_order:
  "Many_apply env fs (Many xs) =
     (case map_e (\<lambda>(f, x). call env f [x]) (List.product fs xs) of
        Inl e \<Rightarrow> Inl e
      | Inr ys \<Rightarrow> Inr (Many ys))
   \<and> Many_apply (\<lambda>g args. Inr (h g args)) (map Fun gs) (Many xs) =
       Inr (Many (concat (map (\<lambda>g. map (\<lambda>x. h g [x]) xs) gs)))
   \<and> Many_apply (\<lambda>g args. Inr (h g args)) [Fun f1, Fun f2] (Many [Int_v 1, Int_v 2]) =
       Inr (Many [h f1 [Int_v 1], h f1 [Int_v 2], h f2 [Int_v 1], h f2 [Int_v 2]])"
  using Many_apply_gen_total [of h gs xs] Many_apply_gen_total [of h "[f1, f2]" "[Int_v 1, Int_v 2]"]
  by (simp add: Many_apply_def Many_apply_gen_product)

lemma Many_bind_gen_concat:
  "Many_bind_gen f tup =
     (case map_e (\<lambda>x. case f x of Inl e \<Rightarrow> Inl e | Inr mx \<Rightarrow> attr_tup mx) tup of
        Inl e \<Rightarrow> Inl e
      | Inr yss \<Rightarrow> Inr (concat yss))"
  by (induction tup) (simp_all split: sum.splits)

lemma Many_bind_gen_total:
  "Many_bind_gen (\<lambda>x. Inr (Many (h x))) tup = Inr (concat (map h tup))"
  by (induction tup) simp_all

text \<open>
  Claim C4. \<^verbatim>\<open>m.bind(f)\<close> is the flat-map: the concatenation, in order, of the sequences
  of \<^verbatim>\<open>f(x)\<close> for the elements \<^verbatim>\<open>x\<close> of \<^verbatim>\<open>m\<close>; the first call that raises, or the first
  result without a sequence, ends it. In particular
  \<^verbatim>\<open>Many(1,2).bind(lambda x: Many(x, x*10)) == Many(1,10,2,20)\<close>.
\<close>

theorem Many_bind_is_flat_map:
  "Many_bind f tup =
     (case map_e (\<lambda>x. case f x of Inl e \<Rightarrow> Inl e | Inr mx \<Rightarrow> attr_tup mx) tup of
        Inl e \<Rightarrow> Inl e
      | Inr yss \<Rightarrow> Inr (Many (concat yss)))
   \<and> Many_bind (\<lambda>x. Inr (Many (h x))) tup = Inr (Many (concat (map h tup)))
   \<and> Many_bind (\<lambda>v. case v of Int_v x \<Rightarrow> Inr (Many [Int_v x, Int_v (x * 10)]) | _ \<Rightarrow> Inl TypeError)
        [Int_v 1, Int_v 2] = Inr (Many [Int_v 1, Int_v 10, Int_v 2, Int_v 20])"
proof -
  have general: "Many_bind f tup =
     (case map_e (\<lambda>x. case f x of Inl e \<Rightarrow> Inl e | Inr mx \<Rightarrow> attr_tup mx) tup of
        Inl e \<Rightarrow> Inl e
      | Inr yss \<Rightarrow> Inr (Many (concat yss)))"
    by (simp add: Many_bind_def Many_bind_gen_concat split: sum.splits)
  have total: "Many_bind (\<lambda>x. Inr (Many (h x))) tup = Inr (Many (concat (map h tup)))"
    by (simp add: Many_bind_def Many_bind_gen_total)
  have example: "Many_bind
        (\<lambda>v. case v of Int_v x \<Rightarrow> Inr (Many [Int_v x, Int_v (x * 10)]) | _ \<Rightarrow> Inl TypeError)
        [Int_v 1, Int_v 2] = Inr (Many [Int_v 1, Int_v 10, Int_v 2, Int_v 20])"
    by (simp add: Many_bind_def)
  from general total example show ?thesis by (intro conjI)
qed

section \<open>The applicative lifter on the demonstration program\<close>

text \<open>
  Claim C5. For two flags \<^verbatim>\<open>(True, False)\<close> the lifted function wraps the curried \<^verbatim>\<open>f\<close>,
  combines it with the first argument by \<^verbatim>\<open>apply\<close> and maps the partial application to
  the second, raw argument over the result. With \<^verbatim>\<open>f(x, y) = x + y\<close>,
  \<^verbatim>\<open>Many.lift(True, False)(f)(Many(0, 1), 2)\<close> is \<^verbatim>\<open>Many(2, 3)\<close>.
\<close>

theorem lift_example:
  "lift_inner env cls [True, False] f [a, b] =
     (case apply_v env (wrap cls (curry 2 f)) a of
        Inl e \<Rightarrow> Inl e
      | Inr y \<Rightarrow> map_v (\<lambda>f'. call env f' [b]) y)
   \<and> (case ApplicativeCls_lift example_env ManyCls [True, False] of
        Inl e \<Rightarrow> Inl e
      | Inr lifted \<Rightarrow> lifted (Fun Fn_f) [Many [Int_v 0, Int_v 1], Int_v 2])
     = Inr (Many [Int_v 2, Int_v 3])"
  by (simp add: lift_inner_def ApplicativeCls_lift_def curry_def Many_wrap_def
      Many_apply_def Many_map_def split: sum.splits)

section \<open>The do block of the demonstration program\<close>

text \<open>
  Claim C6. The do block of example.py binds \<^verbatim>\<open>x\<close> from \<^verbatim>\<open>Many(0, 2)\<close>, \<^verbatim>\<open>y\<close> from
  \<^verbatim>\<open>Many(0, 1)\<close> and \<^verbatim>\<open>z\<close> from \<^verbatim>\<open>g(x, y, -1)\<close>, in this order: every record of the result
  has the three fields \<^verbatim>\<open>x\<close>, \<^verbatim>\<open>y\<close>, \<^verbatim>\<open>z\<close>, one per step, each holding the unwrapped value
  of its step, and the projection on \<^verbatim>\<open>z\<close> is \<^verbatim>\<open>Many(0, -1, -2, -3)\<close>.
\<close>

theorem do_example:
  "example_do =
     Inr (Many
       [Do [(''x'', Int_v 0), (''y'', Int_v 0), (''z'', Int_v 0)],
        Do [(''x'', Int_v 0), (''y'', Int_v 1), (''z'', Int_v (- 1))],
        Do [(''x'', Int_v 2), (''y'', Int_v 0), (''z'', Int_v (- 2))],
        Do [(''x'', Int_v 2), (''y'', Int_v 1), (''z'', Int_v (- 3))]])
   \<and> (case example_do of Inl e \<Rightarrow> Inl e | Inr m \<Rightarrow> map_v (\<lambda>s. getattr_field s ''z'') m)
       = Inr (Many [Int_v 0, Int_v (- 1), Int_v (- 2), Int_v (- 3)])"
  by (simp add: example_do_def MonadCls_do_def do_line_def Many_wrap_def Many_bind_def
      Many_map_def Do_getattribute_def Do_init_def)

section \<open>Flatten\<close>

lemma foldr_max_ge: "y \<in> set ys \<Longrightarrow> f y \<le> foldr max (map f ys) (0::nat)"
  by (induction ys) (auto simp: max_def)

lemma Many_bind_gen_pointwise:
  "(\<And>x. x \<in> set xs \<Longrightarrow> f (k x) = Inr (Many (h x))) \<Longrightarrow>
   Many_bind_gen f (map k xs) = Inr (concat (map h xs))"
  by (induction xs) simp_all

lemma do_x_Many:
  "MonadCls_do ManyCls None [(''x'', \<lambda>s. Inr (Many xs))]
     = Inr (Many (map (\<lambda>v. Do [(''x'', v)]) xs))"
  by (simp add: MonadCls_do_def do_line_def Many_wrap_def Many_bind_def Many_map_def map_e_total
      Do_getattribute_def Do_init_def)

lemma do_x_rebind:
  "MonadCls_do ManyCls (Some (Many [Do [(''x'', Many ys)]])) [(''x'', \<lambda>s. getattr_field s ''x'')]
     = Inr (Many (map (\<lambda>v. Do [(''x'', v)]) ys))"
  by (simp add: MonadCls_do_def do_line_def Many_bind_def Many_map_def map_e_total
      Do_getattribute_def Do_init_def)

lemma project_x: "map_e (\<lambda>s. getattr_field s ''x'') (map (\<lambda>w. Do [(''x'', w)]) zs) = Inr zs"
  by (induction zs) (simp_all add: Do_getattribute_def)

lemma not_instance: "\<not> isinstance v mon \<Longrightarrow> joined mon v = [v]"
  by (cases "(mon, v)" rule: joined.cases) simp_all

lemma joined_Box: "length (joined BoxCls v) = 1"
  by (induction "BoxCls" v rule: joined.induct) simp_all

lemma joined_Maybe: "length (joined MaybeCls v) \<le> 1"
  by (induction "MaybeCls" v rule: joined.induct) simp_all

lemma container_wrap: "container mon [s] = wrap mon s"
  by (cases mon) (simp_all add: Box_wrap_def Maybe_wrap_def Many_wrap_def)

lemma do_rebind_Box:
  "MonadCls_do BoxCls (Some (Box (Do [(''x'', Box a)]))) [(''x'', \<lambda>s. getattr_field s ''x'')]
     = Inr (Box (Do [(''x'', a)]))"
  by (simp add: MonadCls_do_def do_line_def Box_bind_def Box_map_def Do_getattribute_def Do_init_def)

lemma do_rebind_Maybe:
  "MonadCls_do MaybeCls (Some (Maybe (Some (Do [(''x'', Maybe a)])))) [(''x'', \<lambda>s. getattr_field s ''x'')]
     = Inr (Maybe (map_option (\<lambda>v. Do [(''x'', v)]) a))"
  by (cases a)
     (simp_all add: MonadCls_do_def do_line_def Maybe_bind_def Maybe_map_def Do_getattribute_def
        Do_init_def)

lemma while_do_not_instance:
  "\<not> isinstance v mon \<Longrightarrow>
   while_do (Suc d) mon
     (\<lambda>s. case getattr_field s ''x'' of Inl e \<Rightarrow> Inl e | Inr v \<Rightarrow> Inr (isinstance v mon))
     [(''x'', \<lambda>s. getattr_field s ''x'')] (Do [(''x'', v)])
   = Inr (container mon [Do [(''x'', v)]])"
  by (simp add: container_wrap Do_getattribute_def)

lemma while_do_flatten_Box:
  "nesting BoxCls v < d \<Longrightarrow>
   while_do d BoxCls
     (\<lambda>s. case getattr_field s ''x'' of Inl e \<Rightarrow> Inl e | Inr v \<Rightarrow> Inr (isinstance v BoxCls))
     [(''x'', \<lambda>s. getattr_field s ''x'')] (Do [(''x'', v)])
   = Inr (container BoxCls (map (\<lambda>w. Do [(''x'', w)]) (joined BoxCls v)))"
proof (induction d arbitrary: v)
  case 0
  then show ?case by simp
next
  case (Suc d)
  show ?case
  proof (cases "isinstance v BoxCls")
    case False
    then show ?thesis
      using while_do_not_instance [OF False, of d] by (simp add: not_instance)
  next
    case True
    then obtain a where v: "v = Box a" by (cases v) simp_all
    have "nesting BoxCls a < d" using Suc.prems by (simp add: v)
    from Suc.IH [OF this] show ?thesis
      by (simp add: v do_rebind_Box Box_wrap_def Box_bind_def Do_getattribute_def)
  qed
qed

lemma while_do_flatten_Maybe:
  "nesting MaybeCls v < d \<Longrightarrow>
   while_do d MaybeCls
     (\<lambda>s. case getattr_field s ''x'' of Inl e \<Rightarrow> Inl e | Inr v \<Rightarrow> Inr (isinstance v MaybeCls))
     [(''x'', \<lambda>s. getattr_field s ''x'')] (Do [(''x'', v)])
   = Inr (container MaybeCls (map (\<lambda>w. Do [(''x'', w)]) (joined MaybeCls v)))"
proof (induction d arbitrary: v)
  case 0
  then show ?case by simp
next
  case (Suc d)
  show ?case
  proof (cases "isinstance v MaybeCls")
    case False
    then show ?thesis
      using while_do_not_instance [OF False, of d] by (simp add: not_instance)
  next
    case True
    then obtain a where v: "v = Maybe a" by (cases v) simp_all
    show ?thesis
    proof (cases a)
      case None
      then show ?thesis
        by (simp add: v do_rebind_Maybe Maybe_wrap_def Maybe_bind_def Do_getattribute_def)
    next
      case (Some b)
      have "nesting MaybeCls b < d" using Suc.prems by (simp add: v Some)
      from Suc.IH [OF this] show ?thesis
        by (simp add: v Some do_rebind_Maybe Maybe_wrap_def Maybe_bind_def Do_getattribute_def)
    qed
  qed
qed

lemma while_do_flatten_Many:
  "nesting ManyCls v < d \<Longrightarrow>
   while_do d ManyCls
     (\<lambda>s. case getattr_field s ''x'' of Inl e \<Rightarrow> Inl e | Inr v \<Rightarrow> Inr (isinstance v ManyCls))
     [(''x'', \<lambda>s. getattr_field s ''x'')] (Do [(''x'', v)])
   = Inr (container ManyCls (map (\<lambda>w. Do [(''x'', w)]) (joined ManyCls v)))"
proof (induction d arbitrary: v)
  case 0
  then show ?case by simp
next
  case (Suc d)
  show ?case
  proof (cases "isinstance v ManyCls")
    case False
    then show ?thesis
      using while_do_not_instance [OF False, of d] by (simp add: not_instance)
  next
    case True
    then obtain ys where v: "v = Many ys" by (cases v) simp_all
    have deep: "nesting ManyCls y < d" if "y \<in> set ys" for y
      using Suc.prems foldr_max_ge [OF that, of "nesting ManyCls"] by (simp add: v)
    have "Many_bind_gen
            (while_do d ManyCls
               (\<lambda>s. case getattr_field s ''x'' of
                      Inl e \<Rightarrow> Inl e
                    | Inr v \<Rightarrow> Inr (isinstance v ManyCls))
               [(''x'', \<lambda>s. getattr_field s ''x'')])
            (map (\<lambda>w. Do [(''x'', w)]) ys)
          = Inr (concat (map (\<lambda>y. map (\<lambda>w. Do [(''x'', w)]) (joined ManyCls y)) ys))"
      by (rule Many_bind_gen_pointwise) (simp add: Suc.IH deep)
    then show ?thesis
      by (simp add: v do_x_rebind Many_wrap_def Many_bind_def map_concat comp_def
          Do_getattribute_def)
  qed
qed

lemma flatten_Box:
  assumes "nesting BoxCls (Box a) \<le> depth"
  shows "flatten depth BoxCls (Box a) = Inr (container BoxCls (joined BoxCls (Box a)))"
proof -
  have start: "MonadCls_do BoxCls None [(''x'', \<lambda>s. Inr (Box a))] = Inr (Box (Do [(''x'', a)]))"
    by (simp add: MonadCls_do_def do_line_def Box_wrap_def Box_bind_def Box_map_def
        Do_getattribute_def Do_init_def)
  have "nesting BoxCls a < depth" using assms by simp
  then have loop: "while_do depth BoxCls
     (\<lambda>s. case getattr_field s ''x'' of Inl e \<Rightarrow> Inl e | Inr v \<Rightarrow> Inr (isinstance v BoxCls))
     [(''x'', \<lambda>s. getattr_field s ''x'')] (Do [(''x'', a)])
        = Inr (container BoxCls (map (\<lambda>w. Do [(''x'', w)]) (joined BoxCls a)))"
    by (rule while_do_flatten_Box)
  obtain l where l: "joined BoxCls a = [l]"
    using joined_Box [of a] by (cases "joined BoxCls a") simp_all
  show ?thesis
    using loop
    by (simp add: flatten_def start MonadCls_loop_def Box_bind_def l Box_map_def
        Do_getattribute_def)
qed

lemma flatten_Maybe:
  assumes "nesting MaybeCls (Maybe a) \<le> depth"
  shows "flatten depth MaybeCls (Maybe a) = Inr (container MaybeCls (joined MaybeCls (Maybe a)))"
proof -
  have start: "MonadCls_do MaybeCls None [(''x'', \<lambda>s. Inr (Maybe a))]
      = Inr (Maybe (map_option (\<lambda>w. Do [(''x'', w)]) a))"
    by (cases a)
       (simp_all add: MonadCls_do_def do_line_def Maybe_wrap_def Maybe_bind_def Maybe_map_def
          Do_getattribute_def Do_init_def)
  show ?thesis
  proof (cases a)
    case None
    show ?thesis
      using start
      by (simp add: None flatten_def MonadCls_loop_def Maybe_bind_def Maybe_map_def)
  next
    case (Some b)
    have "nesting MaybeCls b < depth" using assms by (simp add: Some)
    then have loop: "while_do depth MaybeCls
       (\<lambda>s. case getattr_field s ''x'' of Inl e \<Rightarrow> Inl e | Inr v \<Rightarrow> Inr (isinstance v MaybeCls))
       [(''x'', \<lambda>s. getattr_field s ''x'')] (Do [(''x'', b)])
          = Inr (container MaybeCls (map (\<lambda>w. Do [(''x'', w)]) (joined MaybeCls b)))"
      by (rule while_do_flatten_Maybe)
    show ?thesis
      using loop joined_Maybe [of b] start
      by (cases "joined MaybeCls b")
         (simp_all add: flatten_def Some MonadCls_loop_def Maybe_bind_def
            Maybe_map_def Do_getattribute_def)
  qed
qed

lemma flatten_Many:
  assumes "nesting ManyCls (Many xs) \<le> depth"
  shows "flatten depth ManyCls (Many xs) = Inr (container ManyCls (joined ManyCls (Many xs)))"
proof -
  have start: "MonadCls_do ManyCls None [(''x'', \<lambda>s. Inr (Many xs))]
      = Inr (Many (map (\<lambda>w. Do [(''x'', w)]) xs))"
    by (rule do_x_Many)
  have deep: "nesting ManyCls y < depth" if "y \<in> set xs" for y
    using assms foldr_max_ge [OF that, of "nesting ManyCls"] by simp
  have "Many_bind_gen
          (while_do depth ManyCls
             (\<lambda>s. case getattr_field s ''x'' of
                    Inl e \<Rightarrow> Inl e
                  | Inr v \<Rightarrow> Inr (isinstance v ManyCls))
             [(''x'', \<lambda>s. getattr_field s ''x'')])
          (map (\<lambda>w. Do [(''x'', w)]) xs)
        = Inr (concat (map (\<lambda>y. map (\<lambda>w. Do [(''x'', w)]) (joined ManyCls y)) xs))"
    by (rule Many_bind_gen_pointwise) (simp add: while_do_flatten_Many deep)
  then have loop: "MonadCls_loop depth ManyCls
     (\<lambda>s. case getattr_field s ''x'' of Inl e \<Rightarrow> Inl e | Inr v \<Rightarrow> Inr (isinstance v ManyCls))
     (Some (Many (map (\<lambda>w. Do [(''x'', w)]) xs))) [(''x'', \<lambda>s. getattr_field s ''x'')]
     = Inr (Many (map (\<lambda>w. Do [(''x'', w)]) (joined ManyCls (Many xs))))"
    by (simp add: MonadCls_loop_def Many_bind_def map_concat comp_def)
  show ?thesis
    using project_x [of "joined ManyCls (Many xs)"]
    by (simp add: flatten_def start loop Many_map_def del: joined.simps)
qed

lemma flatten_any:
  assumes "isinstance expr mon" and "nesting mon expr \<le> depth"
  shows "flatten depth mon expr = Inr (container mon (joined mon expr))"
proof (cases mon)
  case BoxCls
  with assms(1) obtain a where "expr = Box a" by (cases expr) simp_all
  then show ?thesis using assms(2) flatten_Box [of a depth] by (simp add: BoxCls)
next
  case MaybeCls
  with assms(1) obtain a where "expr = Maybe a" by (cases expr) simp_all
  then show ?thesis using assms(2) flatten_Maybe [of a depth] by (simp add: MaybeCls)
next
  case ManyCls
  with assms(1) obtain xs where "expr = Many xs" by (cases expr) simp_all
  then show ?thesis using assms(2) flatten_Many [of xs depth] by (simp add: ManyCls)
qed

text \<open>
  Claim C7. \<^verbatim>\<open>flatten(Many, Many(0, Many(1, 2), Many(3, 4)))\<close> is \<^verbatim>\<open>Many(0, 1, 2, 3, 4)\<close>,
  at every recursion depth from 2 on. In general, for \<^verbatim>\<open>expr\<close> an instance of the class
  \<^verbatim>\<open>mon\<close> and a recursion depth of at least the number of nested layers of the class,
  \<^verbatim>\<open>flatten(mon, expr)\<close> returns the single flat container of the joined values of
  \<^verbatim>\<open>expr\<close>: the nested layers of the class are collapsed, and the joining stops at the
  first layer of another type.
\<close>

theorem flatten_joins:
  "(isinstance (expr :: 'f val) mon \<and> nesting mon expr \<le> depth \<longrightarrow>
      flatten depth mon expr = Inr (container mon (joined mon expr)))
   \<and> flatten (Suc (Suc n)) ManyCls
        (Many [Int_v 0, Many [Int_v 1, Int_v 2], Many [Int_v 3, Int_v 4]])
       = (Inr (Many [Int_v 0, Int_v 1, Int_v 2, Int_v 3, Int_v 4]) :: 'f result)"
  using flatten_any [of expr mon depth]
    flatten_Many [of "[Int_v 0, Many [Int_v 1, Int_v 2], Many [Int_v 3, Int_v 4]]" "Suc (Suc n)"]
  by simp

theorem flatten_joins_witness:
  "flatten 3 ManyCls (Many [Int_v 0, Box (Many [Int_v 1]), Many [Many [], Int_v 3]])
     = (Inr (Many [Int_v 0, Box (Many [Int_v 1]), Int_v 3]) :: example_fn result)
   \<and> flatten 2 BoxCls (Box (Box (Many [Box (Int_v 1)])))
     = (Inr (Box (Many [Box (Int_v 1)])) :: example_fn result)"
  using flatten_joins
    [of "Many [Int_v 0, Box (Many [Int_v 1]), Many [Many [], Int_v 3]] :: example_fn val"
        ManyCls 3 0]
    flatten_joins [of "Box (Box (Many [Box (Int_v 1)])) :: example_fn val" BoxCls 2 0]
  by simp

section \<open>The round trip of curry and un_curry\<close>

text \<open>
  The loop of \<^verbatim>\<open>_un_curry_call\<close> calls \<^verbatim>\<open>f\<close>, not \<^verbatim>\<open>y\<close>: what it returns is the last
  call alone. On a curried chain of two or more arguments every call of the loop returns
  a closure that waits for the next argument.
\<close>

lemma un_curry_loop_last:
  "n \<noteq> 1 \<Longrightarrow> un_curry_loop env (Clo f n []) y xs =
      (if xs = [] then Inr y else Inr (Clo f (n - 1) [last xs]))"
  by (induction xs arbitrary: y) simp_all

text \<open>
  Claim C2. The round trip \<^verbatim>\<open>un_curry(n)(curry(n)(f))(a_1,...,a_n) == f(a_1,...,a_n)\<close>
  holds in the code for \<^verbatim>\<open>n = 1\<close> only. For every \<^verbatim>\<open>n\<close> from 2 on the code returns the
  closure \<^verbatim>\<open>curry(n)(f)(a_n)\<close> and never calls \<^verbatim>\<open>f\<close>: with \<^verbatim>\<open>f = lambda x, y: x - y\<close> and
  the arguments \<^verbatim>\<open>(5, 3)\<close> it returns a closure where \<^verbatim>\<open>f(5, 3)\<close> is \<^verbatim>\<open>2\<close>.
\<close>

theorem un_curry_keeps_last_call:
  "(2 \<le> n \<and> int (length xs) = n \<longrightarrow>
      un_curry env n (curry n f) xs = Inr (Clo f (n - 1) [last xs]))
   \<and> un_curry env 1 (curry 1 f) [a] = call env f [a]
   \<and> un_curry example_env 2 (curry 2 (Fun Fn_minus)) [Int_v 5, Int_v 3]
        = Inr (Clo (Fun Fn_minus) 1 [Int_v 3])
   \<and> call example_env (Fun Fn_minus) [Int_v 5, Int_v 3] = Inr (Int_v 2)"
proof -
  have "un_curry env n (curry n f) xs = Inr (Clo f (n - 1) [last xs])"
    if n: "2 \<le> n" and len: "int (length xs) = n"
  proof -
    from n len have "xs \<noteq> []" "n \<noteq> 1" by auto
    then show ?thesis
      using len by (simp add: un_curry_def un_curry_call_def curry_def un_curry_loop_last)
  qed
  then show ?thesis
    by (simp add: un_curry_def un_curry_call_def curry_def split: sum.splits)
qed

theorem un_curry_keeps_last_call_witness:
  "un_curry example_env 3 (curry 3 (Fun Fn_f)) [Int_v 1, Int_v 2, Int_v 4]
     = Inr (Clo (Fun Fn_f) 2 [Int_v 4])"
  using un_curry_keeps_last_call [of 3 "[Int_v 1, Int_v 2, Int_v 4]" example_env "Fun Fn_f"]
  by simp

section \<open>A step name that the record already has\<close>






section \<open>Depths that are negative or not integers\<close>

lemma times_None_not_int: "\<forall>n. l \<noteq> Int_v n \<Longrightarrow> times_None l = Inl TypeError"
  by (cases l) simp_all

lemma times_None_too_low: "d < - sys_maxsize - 1 \<Longrightarrow> times_None (Int_v d) = Inl OverflowError"
  by simp

lemma mmap_step_refused: "times_None l = Inl e \<Longrightarrow> mmap_step env l x layer y = Inl e"
  by (simp add: mmap_step_def)

lemma mmap_loop_refused:
  "times_None l = Inl e \<Longrightarrow> length xs1 = length pre \<Longrightarrow>
   mmap_loop env (pre @ l # post) (xs1 @ x # xs2) layer y =
     (case mmap_loop env pre xs1 layer y of Inl e' \<Rightarrow> Inl e' | Inr y' \<Rightarrow> Inl e)"
proof (induction pre arbitrary: xs1 layer y)
  case Nil
  then show ?case by (simp add: mmap_step_refused)
next
  case (Cons p pre)
  then obtain a as where xs1: "xs1 = a # as" and len: "length as = length pre"
    by (cases xs1) simp_all
  show ?case
    using Cons.IH [OF Cons.prems(1) len]
    by (simp add: xs1 split: sum.splits prod.splits)
qed

lemma mmap_step_negative:
  "- sys_maxsize - 1 \<le> d \<Longrightarrow> d < 0 \<Longrightarrow>
   map_sum id snd (mmap_step env (Int_v d) x layer y)
     = map_sum id snd (mmap_step env (Int_v 0) x layer y)"
  by (simp add: mmap_step_def sys_maxsize_def split: sum.splits)

lemma mmap_loop_negative_last:
  "- sys_maxsize - 1 \<le> d \<Longrightarrow> d < 0 \<Longrightarrow> length xs1 = length pre \<Longrightarrow>
   mmap_loop env (pre @ [Int_v d]) (xs1 @ [x]) layer y
     = mmap_loop env (pre @ [Int_v 0]) (xs1 @ [x]) layer y"
proof (induction pre arbitrary: xs1 layer y)
  case Nil
  then show ?case
    using mmap_step_negative [of d env x layer y]
    by (cases "mmap_step env (Int_v d) x layer y"; cases "mmap_step env (Int_v 0) x layer y")
       auto
next
  case (Cons p pre)
  then obtain a as where xs1: "xs1 = a # as" and len: "length as = length pre"
    by (cases xs1) simp_all
  show ?case
    using Cons.IH [OF Cons.prems(1,2) len]
    by (simp add: xs1 split: sum.splits prod.splits)
qed

text \<open>
  Claim C8, as amended. The code does not check the depths. In a call of the function
  produced by \<^verbatim>\<open>mmap\<close> with as many arguments as depths:
  \<^item> a depth that is not an integer makes the call raise: the exception of the arguments
    before it, if handling them raises, and else \<^verbatim>\<open>TypeError\<close>; so \<^verbatim>\<open>TypeError\<close> when it
    is the first depth;
  \<^item> an integer depth below \<^verbatim>\<open>-sys.maxsize - 1\<close> makes the call raise in the same way,
    with \<^verbatim>\<open>OverflowError\<close>;
  \<^item> a negative depth from \<^verbatim>\<open>-sys.maxsize - 1\<close> on is not refused: as the last depth
    it gives the call the result that depth 0 in its place gives, and as the only depth
    the call is \<^verbatim>\<open>f(x)\<close>.
  The exception is the result of that call: \<^verbatim>\<open>mmap(...)\<close> itself returns the function.
\<close>

theorem mmap_depth_not_validated:
  "((\<forall>n. l \<noteq> Int_v n) \<and> length xs1 = length pre \<and> length xs2 = length post \<longrightarrow>
      mmap_inner env (pre @ l # post) f (xs1 @ x # xs2) =
        (case mmap_loop env pre xs1 0 (curry (int (length (pre @ l # post))) f) of
           Inl e \<Rightarrow> Inl e
         | Inr y \<Rightarrow> Inl TypeError))
   \<and> ((\<forall>n. l \<noteq> Int_v n) \<and> length xs2 = length post \<longrightarrow>
        mmap_inner env (l # post) f (x # xs2) = Inl TypeError)
   \<and> (d < - sys_maxsize - 1 \<and> length xs1 = length pre \<and> length xs2 = length post \<longrightarrow>
        mmap_inner env (pre @ Int_v d # post) f (xs1 @ x # xs2) =
          (case mmap_loop env pre xs1 0 (curry (int (length (pre @ Int_v d # post))) f) of
             Inl e \<Rightarrow> Inl e
           | Inr y \<Rightarrow> Inl OverflowError))
   \<and> (- sys_maxsize - 1 \<le> d' \<and> d' < 0 \<and> length xs1 = length pre \<longrightarrow>
        mmap_inner env (pre @ [Int_v d']) f (xs1 @ [x])
          = mmap_inner env (pre @ [Int_v 0]) f (xs1 @ [x]))
   \<and> (- sys_maxsize - 1 \<le> d' \<and> d' < 0 \<longrightarrow> mmap_inner env [Int_v d'] f [x] = call env f [x])
   \<and> FunctorCls_mmap env (pre @ l # post) = Inr (mmap_inner env (pre @ l # post))"
proof -
  have refused: "mmap_inner env (pre @ l' # post) f (xs1 @ x # xs2) =
        (case mmap_loop env pre xs1 0 (curry (int (length (pre @ l' # post))) f) of
           Inl e' \<Rightarrow> Inl e'
         | Inr y \<Rightarrow> Inl e)"
    if "times_None l' = Inl e" and "length xs1 = length pre" and "length xs2 = length post"
    for l' e
    using that mmap_loop_refused [OF that(1,2), of env post x xs2 0]
    by (simp add: mmap_inner_def)
  have not_int: "mmap_inner env (pre @ l # post) f (xs1 @ x # xs2) =
        (case mmap_loop env pre xs1 0 (curry (int (length (pre @ l # post))) f) of
           Inl e \<Rightarrow> Inl e
         | Inr y \<Rightarrow> Inl TypeError)"
    if "\<forall>n. l \<noteq> Int_v n" and "length xs1 = length pre" and "length xs2 = length post"
    using times_None_not_int [OF that(1)] that(2,3) by (rule refused)
  have too_low: "mmap_inner env (pre @ Int_v d # post) f (xs1 @ x # xs2) =
        (case mmap_loop env pre xs1 0 (curry (int (length (pre @ Int_v d # post))) f) of
           Inl e \<Rightarrow> Inl e
         | Inr y \<Rightarrow> Inl OverflowError)"
    if "d < - sys_maxsize - 1" and "length xs1 = length pre" and "length xs2 = length post"
    using times_None_too_low [OF that(1)] that(2,3) by (rule refused)
  have first: "mmap_inner env (l # post) f (x # xs2) = Inl TypeError"
    if l: "\<forall>n. l \<noteq> Int_v n" and len: "length xs2 = length post"
    using len mmap_step_refused [OF times_None_not_int [OF l]] by (simp add: mmap_inner_def)
  have last: "mmap_inner env (pre @ [Int_v d']) f (xs1 @ [x])
          = mmap_inner env (pre @ [Int_v 0]) f (xs1 @ [x])"
    if "- sys_maxsize - 1 \<le> d'" and "d' < 0" and "length xs1 = length pre"
    using mmap_loop_negative_last [OF that, of env x 0 "curry (int (length (pre @ [Int_v 0]))) f"]
    by (simp add: mmap_inner_def Let_def)
  have single: "mmap_inner env [Int_v d'] f [x] = call env f [x]"
    if "- sys_maxsize - 1 \<le> d'" and "d' < 0"
    using that
    by (simp add: mmap_inner_def mmap_step_def update_call_def curry_def sys_maxsize_def
        split: sum.splits)
  have staged: "FunctorCls_mmap env (pre @ l # post) = Inr (mmap_inner env (pre @ l # post))"
    by (simp add: FunctorCls_mmap_def)
  show ?thesis
    using not_int too_low first last single staged by blast
qed

theorem mmap_depth_not_validated_witness:
  "mmap_inner example_env [Int_v 1, Many [], Int_v 0] (Fun Fn_f)
      [Many [Int_v 1], Int_v 2, Int_v 3] = Inl TypeError
   \<and> mmap_inner example_env [Many [], Int_v 0] (Fun Fn_f) [Int_v 2, Int_v 3] = Inl TypeError
   \<and> mmap_inner example_env [Int_v 1, Int_v (- (2 ^ 63) - 1), Int_v 0] (Fun Fn_f)
      [Many [Int_v 1], Int_v 2, Int_v 3] = Inl OverflowError
   \<and> mmap_inner example_env [Int_v 1, Int_v (- 2)] (Fun Fn_f) [Many [Int_v 1], Int_v 2]
      = Inr (Many [Int_v 3])
   \<and> mmap_inner example_env [Int_v (- 2)] (Fun Fn_neg) [Int_v 7] = Inr (Int_v (- 7))"
proof -
  have a: "\<forall>n. (Many [] :: example_fn val) \<noteq> Int_v n" by simp
  have b: "- (2 ^ 63) - 1 < - sys_maxsize - 1" by (simp add: sys_maxsize_def)
  have c: "- sys_maxsize - 1 \<le> - 2" "(- 2 :: int) < 0" by (simp_all add: sys_maxsize_def)
  have prefix: "mmap_loop example_env [Int_v 1] [Many [Int_v 1]] 0 (curry 3 (Fun Fn_f))
      = Inr (Many [Clo (Fun Fn_f) 2 [Int_v 1]])"
    by (simp add: mmap_step_def update_call_def update_over_x_def curry_def Many_map_def
        sys_maxsize_def)
  have zero: "mmap_inner example_env [Int_v 1, Int_v 0] (Fun Fn_f) [Many [Int_v 1], Int_v 2]
      = Inr (Many [Int_v 3])"
    by (simp add: mmap_inner_def mmap_step_def update_call_def update_over_x_def
        update_over_y_def curry_def Many_map_def sys_maxsize_def)
  have only: "mmap_inner example_env [Int_v 0] (Fun Fn_neg) [Int_v 7] = Inr (Int_v (- 7))"
    by (simp add: mmap_inner_def mmap_step_def update_call_def curry_def sys_maxsize_def)
  show ?thesis
    using a b c prefix zero only
      mmap_depth_not_validated [of "Many []" "[Many [Int_v 1]]" "[Int_v 1]" "[Int_v 3]" "[Int_v 0]"
        example_env "Fun Fn_f" "Int_v 2" "- (2 ^ 63) - 1" "- 2"]
      mmap_depth_not_validated [of "Many []" "[]" "[]" "[]" "[]"
        example_env "Fun Fn_neg" "Int_v 7" "- (2 ^ 63) - 1" "- 2"]
    by simp
qed

text \<open>
  Claim C8 as stated fails: with the negative depth \<^verbatim>\<open>-1\<close>, \<^verbatim>\<open>mmap(-1)(lambda x: -x)(5)\<close>
  raises no error and returns \<^verbatim>\<open>-5\<close>.
\<close>

theorem mmap_negative_depth_counterexample:
  "(case FunctorCls_mmap example_env [Int_v (- 1)] of
      Inl e \<Rightarrow> Inl e
    | Inr mapped \<Rightarrow> mapped (Fun Fn_neg) [Int_v 5]) = Inr (Int_v (- 5))"
  by (simp add: FunctorCls_mmap_def mmap_inner_def mmap_step_def update_call_def curry_def
      sys_maxsize_def)

section \<open>The functor multiplex against the broadcast\<close>

subsection \<open>Results that agree\<close>

lemma agree_refl [simp]: "agree r r"
  by (simp add: agree_def)

lemma agree_sym: "agree r r' \<Longrightarrow> agree r' r"
  by (simp add: agree_def)

lemma agree_trans: "agree r r' \<Longrightarrow> agree r' r'' \<Longrightarrow> agree r r''"
  by (simp add: agree_def)

lemma agree_Inl [simp]: "agree (Inl e) (Inl e')"
  by (simp add: agree_def)

lemma agree_Inr_iff: "agree r (Inr v) = (r = Inr v)"
  by (auto simp: agree_def)

lemma agree_Inl_iff: "agree r (Inl e) = (\<exists>e'. r = Inl e')"
  by (cases r) (auto simp: agree_def)

lemma agree_Inr_left: "agree (Inr v) r = (r = Inr v)"
  by (auto simp: agree_def)

lemma agree_Inl_left: "agree (Inl e) r = (\<exists>e'. r = Inl e')"
  by (cases r) (auto simp: agree_def)

lemma agree_and_then:
  "agree r r' \<Longrightarrow> (\<And>v. agree (k v) (k' v)) \<Longrightarrow> agree (and_then r k) (and_then r' k')"
  by (cases r; cases r') (auto simp: and_then_def agree_Inr_left agree_Inl_left agree_Inr_iff)

lemma map_e_fusion:
  "agree (and_then (map_e p xs) (map_e h)) (map_e (\<lambda>a. and_then (p a) h) xs)"
proof (induction xs)
  case Nil
  show ?case by (simp add: and_then_def)
next
  case (Cons x xs)
  show ?case
  proof (cases "p x")
    case (Inl e)
    then show ?thesis by (simp add: and_then_def)
  next
    case px: (Inr b)
    show ?thesis
    proof (cases "map_e p xs")
      case (Inl e)
      with Cons have "\<exists>e'. map_e (\<lambda>a. and_then (p a) h) xs = Inl e'"
        by (simp add: and_then_def agree_Inl_left)
      then show ?thesis using px Inl by (auto simp: and_then_def agree_Inl_left split: sum.splits)
    next
      case (Inr ys)
      with Cons have "agree (map_e h ys) (map_e (\<lambda>a. and_then (p a) h) xs)"
        by (simp add: and_then_def)
      then show ?thesis using px Inr
        by (cases "h b"; cases "map_e h ys"; cases "map_e (\<lambda>a. and_then (p a) h) xs")
           (auto simp: and_then_def agree_Inl_left agree_Inr_left agree_Inl_iff agree_Inr_iff)
    qed
  qed
qed

lemma map_e_agree:
  "(\<And>a. agree (p a) (q a)) \<Longrightarrow> agree (map_e p xs) (map_e q xs)"
proof (induction xs)
  case Nil
  show ?case by simp
next
  case (Cons x xs)
  from Cons.prems have px: "agree (p x) (q x)" .
  from Cons have rest: "agree (map_e p xs) (map_e q xs)" by simp
  show ?case using px rest
    by (cases "p x"; cases "q x"; cases "map_e p xs"; cases "map_e q xs")
       (auto simp: agree_Inl_left agree_Inr_left agree_Inl_iff agree_Inr_iff)
qed

lemma map_v_Do_Inl: "\<exists>e. map_v p (Do st) = Inl e"
  by (simp add: Do_method_def split: sum.splits)

lemma map_v_fusion:
  "agree (and_then (map_v p v) (map_v h)) (map_v (\<lambda>a. and_then (p a) h) v)"
proof (cases v)
  case (Many xs)
  have "agree (and_then (map_e p xs) (map_e h)) (map_e (\<lambda>a. and_then (p a) h) xs)"
    by (rule map_e_fusion)
  then show ?thesis
    by (cases "map_e p xs"; cases "map_e (\<lambda>a. and_then (p a) h) xs")
       (auto simp: Many Many_map_def and_then_def agree_Inl_left agree_Inr_left agree_Inl_iff
          agree_Inr_iff split: sum.splits)
next
  case (Do st)
  then show ?thesis
    using map_v_Do_Inl [of p st] map_v_Do_Inl [of "\<lambda>a. and_then (p a) h" st]
    by (auto simp: and_then_def simp del: map_v.simps)
qed (auto simp: and_then_def Box_map_def Maybe_map_def split: sum.splits option.splits)

lemma map_v_agree:
  assumes "\<And>a. agree (p a) (q a)"
  shows "agree (map_v p v) (map_v q v)"
proof (cases v)
  case (Many xs)
  have "agree (map_e p xs) (map_e q xs)" using assms by (rule map_e_agree)
  then show ?thesis
    by (cases "map_e p xs"; cases "map_e q xs")
       (auto simp: Many Many_map_def agree_Inl_left agree_Inr_left)
next
  case (Box a)
  show ?thesis using assms [of a]
    by (cases "p a"; cases "q a") (auto simp: Box Box_map_def agree_Inl_left agree_Inr_left)
next
  case (Maybe a)
  show ?thesis
  proof (cases a)
    case None
    then show ?thesis by (simp add: Maybe Maybe_map_def)
  next
    case (Some b)
    show ?thesis using assms [of b]
      by (cases "p b"; cases "q b")
         (auto simp: Maybe Some Maybe_map_def agree_Inl_left agree_Inr_left)
  qed
qed simp_all

lemma deep_map_agree:
  "(\<And>a. agree (p a) (q a)) \<Longrightarrow> agree (deep_map n p v) (deep_map n q v)"
proof (induction n arbitrary: v)
  case 0
  then show ?case by simp
next
  case (Suc n)
  show ?case by (simp, rule map_v_agree, rule Suc.IH, rule Suc.prems)
qed

lemma deep_map_fusion:
  "agree (and_then (deep_map n p v) (deep_map n h)) (deep_map n (\<lambda>a. and_then (p a) h) v)"
proof (induction n arbitrary: v)
  case 0
  show ?case by simp
next
  case (Suc n)
  have "agree (and_then (map_v (deep_map n p) v) (map_v (deep_map n h)))
              (map_v (\<lambda>a. and_then (deep_map n p a) (deep_map n h)) v)"
    by (rule map_v_fusion)
  moreover have "agree (map_v (\<lambda>a. and_then (deep_map n p a) (deep_map n h)) v)
                       (map_v (deep_map n (\<lambda>a. and_then (p a) h)) v)"
    by (rule map_v_agree) (rule Suc.IH)
  ultimately show ?case
    using agree_trans by (simp del: map_v.simps) blast
qed

lemma deep_map_add: "deep_map (n + m) p = deep_map n (deep_map m p)"
proof (induction n)
  case 0
  show ?case by (rule ext) simp
next
  case (Suc n)
  show ?case by (rule ext) (simp add: Suc.IH del: map_v.simps)
qed

subsection \<open>The loop of mmap\<close>

lemma funpow_over_x: "(update_over_x ^^ n) u = (\<lambda>y x. deep_map n (\<lambda>x'. u y x') x)"
proof (induction n)
  case 0
  show ?case by simp
next
  case (Suc n)
  have "(update_over_x ^^ Suc n) u = update_over_x ((update_over_x ^^ n) u)" by simp
  also have "\<dots> = update_over_x (\<lambda>y x. deep_map n (\<lambda>x'. u y x') x)" by (simp only: Suc.IH)
  also have "\<dots> = (\<lambda>y x. deep_map (Suc n) (\<lambda>x'. u y x') x)"
    by (simp add: update_over_x_def del: map_v.simps)
  finally show ?case .
qed

lemma funpow_over_y: "(update_over_y ^^ n) u = (\<lambda>y x. deep_map n (\<lambda>y'. u y' x) y)"
proof (induction n)
  case 0
  show ?case by simp
next
  case (Suc n)
  have "(update_over_y ^^ Suc n) u = update_over_y ((update_over_y ^^ n) u)" by simp
  also have "\<dots> = update_over_y (\<lambda>y x. deep_map n (\<lambda>y'. u y' x) y)" by (simp only: Suc.IH)
  also have "\<dots> = (\<lambda>y x. deep_map (Suc n) (\<lambda>y'. u y' x) y)"
    by (simp add: update_over_y_def del: map_v.simps)
  finally show ?case .
qed

lemma times_None_nat: "int n \<le> sys_maxsize \<Longrightarrow> times_None (Int_v (int n)) = Inr n"
  by (simp add: sys_maxsize_def)

lemma mmap_step_nat:
  "int L \<le> sys_maxsize \<Longrightarrow> int layer \<le> sys_maxsize \<Longrightarrow>
   mmap_step env (Int_v (int L)) x (int layer) y =
     and_then (deep_map layer (\<lambda>c. deep_map L (\<lambda>x'. call env c [x']) x) y)
       (\<lambda>y'. Inr (int (layer + L), y'))"
  by (simp add: mmap_step_def times_None_nat funpow_over_x funpow_over_y update_call_def
      and_then_def del: times_None.simps)

lemma map_e_shape:
  "map_e p xs = Inr ys \<Longrightarrow> (\<And>a b. a \<in> set xs \<Longrightarrow> p a = Inr b \<Longrightarrow> q b = Inr b) \<Longrightarrow>
   map_e q ys = Inr ys"
proof (induction xs arbitrary: ys)
  case Nil
  then show ?case by simp
next
  case (Cons x xs)
  then obtain b bs where b: "p x = Inr b" and bs: "map_e p xs = Inr bs" and ys: "ys = b # bs"
    by (auto split: sum.splits)
  have "q b = Inr b" using Cons.prems(2) [of x b] b by simp
  moreover have "map_e q bs = Inr bs"
    by (rule Cons.IH [OF bs]) (rule Cons.prems(2), simp_all)
  ultimately show ?case by (simp add: ys)
qed

lemma map_v_shape:
  assumes "map_v p v = Inr w" and "\<And>a b. p a = Inr b \<Longrightarrow> q b = Inr b"
  shows "map_v q w = Inr w"
proof (cases v)
  case (Many xs)
  then obtain ys where ys: "map_e p xs = Inr ys" and w: "w = Many ys"
    using assms(1) by (auto simp: Many_map_def split: sum.splits)
  have "map_e q ys = Inr ys" using ys assms(2) by (rule map_e_shape)
  then show ?thesis by (simp add: w Many_map_def)
next
  case (Box a)
  then show ?thesis using assms by (auto simp: Box_map_def split: sum.splits)
next
  case (Maybe a)
  then show ?thesis using assms by (auto simp: Maybe_map_def split: sum.splits option.splits)
next
  case (Do st)
  then show ?thesis using assms(1) by (simp add: Do_method_def split: sum.splits)
qed (use assms(1) in simp_all)

lemma deep_map_shape:
  "deep_map n p v = Inr w \<Longrightarrow> (\<And>a b. p a = Inr b \<Longrightarrow> q b = Inr b) \<Longrightarrow>
   deep_map n q w = Inr w"
proof (induction n arbitrary: v w)
  case 0
  then show ?case by simp
next
  case (Suc n)
  from Suc.prems(1) have "map_v (deep_map n p) v = Inr w" by simp
  then have "map_v (deep_map n q) w = Inr w"
    by (rule map_v_shape) (rule Suc.IH, assumption, rule Suc.prems(2))
  then show ?case by simp
qed

lemma mmap_loop_curried_broadcast:
  "length xs = length Ls \<Longrightarrow> deep_map layer Inr y = Inr y \<Longrightarrow>
   int (layer + sum_list Ls) \<le> sys_maxsize \<Longrightarrow>
   agree (mmap_loop env (map (\<lambda>L. Int_v (int L)) Ls) xs (int layer) y)
         (deep_map layer (curried_broadcast env (zip Ls xs)) y)"
proof (induction Ls arbitrary: xs layer y)
  case Nil
  then show ?case by simp
next
  case (Cons L Ls)
  then obtain x xs' where xs: "xs = x # xs'" and len: "length xs' = length Ls"
    by (cases xs) simp_all
  have bound: "int L \<le> sys_maxsize" "int layer \<le> sys_maxsize"
    and bound': "int (layer + L + sum_list Ls) \<le> sys_maxsize"
    using Cons.prems(3) by (simp_all add: add.assoc)
  note step = mmap_step_nat [OF bound]
  let ?A = "\<lambda>c. deep_map L (\<lambda>x'. call env c [x']) x"
  let ?G = "curried_broadcast env (zip Ls xs')"
  let ?rhs = "deep_map layer (curried_broadcast env (zip (L # Ls) xs)) y"
  have inner: "agree (and_then (?A c) (deep_map L ?G))
                     (deep_map L (\<lambda>x'. and_then (call env c [x']) ?G) x)" for c
    by (rule deep_map_fusion)
  have "agree (and_then (deep_map layer ?A y) (deep_map layer (deep_map L ?G)))
              (deep_map layer (\<lambda>c. and_then (?A c) (deep_map L ?G)) y)"
    by (rule deep_map_fusion)
  moreover have "agree (deep_map layer (\<lambda>c. and_then (?A c) (deep_map L ?G)) y) ?rhs"
    unfolding xs by (simp del: deep_map.simps, rule deep_map_agree, rule inner)
  ultimately have fused: "agree (and_then (deep_map layer ?A y) (deep_map (layer + L) ?G)) ?rhs"
    by (simp only: deep_map_add) (rule agree_trans)
  show ?case
  proof (cases "deep_map layer ?A y")
    case (Inl e)
    then show ?thesis using fused
      by (simp add: xs step and_then_def agree_Inl_left del: deep_map.simps)
  next
    case (Inr y')
    have leaf: "deep_map L Inr z = Inr z" if "?A c = Inr z" for c z
      using that by (rule deep_map_shape) simp
    have "deep_map layer (deep_map L Inr) y' = Inr y'"
      using Inr by (rule deep_map_shape) (rule leaf)
    then have shape: "deep_map (layer + L) Inr y' = Inr y'"
      by (simp only: deep_map_add)
    have "agree (mmap_loop env (map (\<lambda>L. Int_v (int L)) Ls) xs' (int (layer + L)) y')
                (deep_map (layer + L) ?G y')"
      using len shape bound' by (rule Cons.IH)
    moreover have "agree (deep_map (layer + L) ?G y') ?rhs"
      using fused by (simp add: Inr and_then_def)
    ultimately have "agree (mmap_loop env (map (\<lambda>L. Int_v (int L)) Ls) xs' (int (layer + L)) y') ?rhs"
      by (rule agree_trans)
    then show ?thesis
      by (simp add: xs step Inr and_then_def del: deep_map.simps)
  qed
qed

lemma broadcast_deep:
  "broadcast F ((L, x) # rest) as = deep_map L (\<lambda>x'. broadcast F rest (as @ [x'])) x"
  by (induction L arbitrary: x) simp_all

lemma curried_broadcast_closure:
  "items \<noteq> [] \<Longrightarrow>
   curried_broadcast env items (Clo f (int (length items)) as)
     = broadcast (\<lambda>as'. call env f (last as' # butlast as')) items as"
proof (induction items arbitrary: as)
  case Nil
  then show ?case by simp
next
  case (Cons item rest)
  obtain L x where item: "item = (L, x)" by (cases item)
  let ?F = "\<lambda>as'. call env f (last as' # butlast as')"
  have "and_then (call env (Clo f (int (length (item # rest))) as) [x'])
          (curried_broadcast env rest) = broadcast ?F rest (as @ [x'])" for x'
  proof (cases "rest = []")
    case True
    then show ?thesis by (cases "call env f (x' # as)") (simp_all add: and_then_def)
  next
    case False
    then have "int (length rest) + 1 \<noteq> 1" by simp
    then show ?thesis using Cons.IH [OF False, of "as @ [x']"]
      by (simp add: and_then_def)
  qed
  then show ?case
    by (simp add: item broadcast_deep del: call.simps curried_broadcast.simps(2) broadcast.simps
        add: curried_broadcast.simps(2))
qed

text \<open>
  Claim C1. For \<^verbatim>\<open>k \<ge> 1\<close> natural depths whose sum fits the index type of the
  interpreter, and as many arguments, the call \<^verbatim>\<open>mmap(L_1,...,L_k)(f)(x_1,...,x_k)\<close>
  returns a value exactly when the broadcast over \<^verbatim>\<open>x_1, ..., x_k\<close> returns it, with the
  layers of \<^verbatim>\<open>x_1\<close> outermost and no \<^verbatim>\<open>map\<close> call for a depth 0; but the function
  broadcast is not \<^verbatim>\<open>f\<close>: it is \<^verbatim>\<open>f\<close> called with the last argument first, since
  \<^verbatim>\<open>_curry_call\<close> calls \<^verbatim>\<open>f(x, *xs)\<close>. So \<^verbatim>\<open>mmap(0, 0)(f)(a, b)\<close> is \<^verbatim>\<open>f(b, a)\<close>; with
  \<^verbatim>\<open>f = lambda x, y: x - y\<close> and the arguments \<^verbatim>\<open>(5, 3)\<close> the code returns \<^verbatim>\<open>-2\<close> where
  \<^verbatim>\<open>f(5, 3)\<close> is \<^verbatim>\<open>2\<close>. With one argument the order cannot show: \<^verbatim>\<open>mmap(0)(f)(a)\<close> is
  \<^verbatim>\<open>f(a)\<close>.
\<close>

theorem mmap_rotates_arguments:
  "(Ls \<noteq> [] \<and> length xs = length Ls \<and> int (sum_list Ls) \<le> sys_maxsize \<longrightarrow>
      (mmap_inner env (map (\<lambda>L. Int_v (int L)) Ls) f xs = Inr r)
        = (broadcast (\<lambda>as. call env f (last as # butlast as)) (zip Ls xs) [] = Inr r))
   \<and> mmap_inner env [Int_v 0, Int_v 0] f [a, b] = call env f [b, a]
   \<and> mmap_inner env [Int_v 0] f [a] = call env f [a]
   \<and> (case FunctorCls_mmap example_env [Int_v 0, Int_v 0] of
        Inl e \<Rightarrow> Inl e
      | Inr mapped \<Rightarrow> mapped (Fun Fn_minus) [Int_v 5, Int_v 3]) = Inr (Int_v (- 2))
   \<and> call example_env (Fun Fn_minus) [Int_v 5, Int_v 3] = Inr (Int_v 2)"
proof -
  have general: "(mmap_inner env (map (\<lambda>L. Int_v (int L)) Ls) f xs = Inr r)
        = (broadcast (\<lambda>as. call env f (last as # butlast as)) (zip Ls xs) [] = Inr r)"
    if ne: "Ls \<noteq> []" and len: "length xs = length Ls"
      and fits: "int (sum_list Ls) \<le> sys_maxsize"
  proof -
    have items: "zip Ls xs \<noteq> []" using ne len by (cases Ls; cases xs) simp_all
    have "agree (mmap_loop env (map (\<lambda>L. Int_v (int L)) Ls) xs (int 0) (Clo f (int (length Ls)) []))
                (deep_map 0 (curried_broadcast env (zip Ls xs)) (Clo f (int (length Ls)) []))"
      using len by (rule mmap_loop_curried_broadcast) (simp_all add: fits)
    then have "agree (mmap_inner env (map (\<lambda>L. Int_v (int L)) Ls) f xs)
                     (broadcast (\<lambda>as. call env f (last as # butlast as)) (zip Ls xs) [])"
      using curried_broadcast_closure [OF items, of env f "[]"] len
      by (simp add: mmap_inner_def curry_def)
    then show ?thesis by (simp add: agree_def)
  qed
  have two: "mmap_inner env [Int_v 0, Int_v 0] f [a, b] = call env f [b, a]"
    by (simp add: mmap_inner_def mmap_step_def update_call_def curry_def sys_maxsize_def
        split: sum.splits)
  have one: "mmap_inner env [Int_v 0] f [a] = call env f [a]"
    by (simp add: mmap_inner_def mmap_step_def update_call_def curry_def sys_maxsize_def
        split: sum.splits)
  have example: "(case FunctorCls_mmap example_env [Int_v 0, Int_v 0] of
        Inl e \<Rightarrow> Inl e
      | Inr mapped \<Rightarrow> mapped (Fun Fn_minus) [Int_v 5, Int_v 3]) = Inr (Int_v (- 2))"
    by (simp add: FunctorCls_mmap_def mmap_inner_def mmap_step_def update_call_def curry_def
        sys_maxsize_def)
  show ?thesis
    using general two one example by simp
qed

theorem mmap_rotates_arguments_witness:
  "mmap_inner example_env [Int_v 1, Int_v 2] (Fun Fn_minus)
      [Many [Int_v 5, Int_v 6], Box (Many [Int_v 1, Int_v 2, Int_v 3])]
     = Inr (Many [Box (Many [Int_v (- 4), Int_v (- 3), Int_v (- 2)]),
                  Box (Many [Int_v (- 5), Int_v (- 4), Int_v (- 3)])])"
  using mmap_rotates_arguments
    [of "[Suc 0, Suc (Suc 0)]" "[Many [Int_v 5, Int_v 6], Box (Many [Int_v 1, Int_v 2, Int_v 3])]"
        example_env "Fun Fn_minus"
        "Many [Box (Many [Int_v (- 4), Int_v (- 3), Int_v (- 2)]),
               Box (Many [Int_v (- 5), Int_v (- 4), Int_v (- 3)])]"
        "Int_v 0" "Int_v 0"]
  by (simp add: Many_map_def Box_map_def sys_maxsize_def)

end
